theory Spec2Isabelle
  imports Complex_Main "HOL-Library.Char_ord" "HOL-Library.List_Lexorder"
begin

section \<open>Python values: errors and dictionaries\<close>

text \<open>
  The exceptions the preprocessing functions can raise.  A function that may raise returns
  \<open>error + 'a\<close>, with \<open>Inl\<close> for the exception.
\<close>

datatype error = KeyError | IndexError | TypeError | ParseError

text \<open>
  A Python \<open>dict\<close> keeps its keys in insertion order: it is a list of key/value pairs whose
  keys are pairwise distinct.  \<open>d[k]\<close> raises \<open>KeyError\<close> on a missing key; \<open>d[k] = v\<close>
  overwrites the value of a key in place and appends a new key at the end.
\<close>

type_synonym ('k, 'v) dict = "('k \<times> 'v) list"

definition keys :: "('k, 'v) dict \<Rightarrow> 'k list" where
  "keys d = map fst d"

definition wf_dict :: "('k, 'v) dict \<Rightarrow> bool" where
  "wf_dict d = distinct (keys d)"

definition dict_get :: "('k, 'v) dict \<Rightarrow> 'k \<Rightarrow> error + 'v" where
  "dict_get d k = (case map_of d k of None \<Rightarrow> Inl KeyError | Some v \<Rightarrow> Inr v)"

fun dict_set :: "('k, 'v) dict \<Rightarrow> 'k \<Rightarrow> 'v \<Rightarrow> ('k, 'v) dict" where
  "dict_set [] k v = [(k, v)]"
| "dict_set ((k', v') # d) k v =
     (if k' = k then (k, v) # d else (k', v') # dict_set d k v)"

section \<open>Salary imputer: \<open>processZeroSalaries\<close>\<close>

text \<open>
  The loop \<open>for accountId in salaries\<close> with the dictionary \<open>processedSalaries\<close> it fills.
  The counter \<open>nZeroSalaries\<close> is only printed and is left out.
\<close>

fun processZeroSalaries_loop ::
  "(int, real) dict \<Rightarrow> (int, real) dict \<Rightarrow> bool \<Rightarrow> int list \<Rightarrow> (int, real) dict
     \<Rightarrow> error + (int, real) dict" where
  "processZeroSalaries_loop salaries districtAvgSalary substituteWithAvg [] processedSalaries =
     Inr processedSalaries"
| "processZeroSalaries_loop salaries districtAvgSalary substituteWithAvg (accountId # rest)
     processedSalaries =
     (case dict_get salaries accountId of
        Inl e \<Rightarrow> Inl e
      | Inr s \<Rightarrow>
          if s = 0 then
            (if substituteWithAvg then
               (case dict_get districtAvgSalary accountId of
                  Inl e \<Rightarrow> Inl e
                | Inr a \<Rightarrow>
                    processZeroSalaries_loop salaries districtAvgSalary substituteWithAvg rest
                      (dict_set processedSalaries accountId a))
             else
               processZeroSalaries_loop salaries districtAvgSalary substituteWithAvg rest
                 (dict_set processedSalaries accountId 1))
          else
            processZeroSalaries_loop salaries districtAvgSalary substituteWithAvg rest
              (dict_set processedSalaries accountId s))"

definition processZeroSalaries ::
  "(int, real) dict \<Rightarrow> (int, real) dict \<Rightarrow> bool \<Rightarrow> error + (int, real) dict" where
  "processZeroSalaries salaries districtAvgSalary substituteWithAvg =
     processZeroSalaries_loop salaries districtAvgSalary substituteWithAvg (keys salaries) []"

text \<open>The value the imputer assigns to an account whose observed salary is \<open>s\<close>.\<close>

definition imputed :: "(int, real) dict \<Rightarrow> bool \<Rightarrow> int \<Rightarrow> real \<Rightarrow> real option" where
  "imputed districtAvgSalary substituteWithAvg accountId s =
     (if s = 0 then (if substituteWithAvg then map_of districtAvgSalary accountId else Some 1)
      else Some s)"

text \<open>Some account with salary zero has no district average.\<close>

definition missing_average :: "(int, real) dict \<Rightarrow> (int, real) dict \<Rightarrow> bool" where
  "missing_average salaries districtAvgSalary =
     list_ex (\<lambda>p. snd p = 0 \<and> map_of districtAvgSalary (fst p) = None) salaries"

text \<open>
  The value stored for a key of \<open>salaries\<close>; \<open>None\<close> when computing it raises.
\<close>

definition new_salary :: "(int, real) dict \<Rightarrow> (int, real) dict \<Rightarrow> bool \<Rightarrow> int \<Rightarrow> real option" where
  "new_salary salaries districtAvgSalary substituteWithAvg accountId =
     (case map_of salaries accountId of
        None \<Rightarrow> None
      | Some s \<Rightarrow> imputed districtAvgSalary substituteWithAvg accountId s)"

section \<open>Feature joiner: \<open>combineFeatures\<close>\<close>

text \<open>
  A table cell is a number or a string.
\<close>

datatype cell = Num real | Str string

text \<open>
  \<open>iterrows()\<close> yields the rows of a table in order.  Of a loan the joiner reads
  \<open>loan_id\<close> and \<open>account_id\<close>, of a disposition \<open>account_id\<close> and \<open>client_id\<close>;
  of a client the label the row has in the index of the table (\<open>clients.index\<close>) and
  \<open>client_id\<close>.  A table read from a file has the default index, in which the label of a
  row is its position; any other integer labels are allowed here.
\<close>

record loan =
  loan_id :: int
  account_id :: int

record disposition =
  disp_account_id :: int
  disp_client_id :: int

record client =
  row_label :: int
  client_id :: int

text \<open>The seven lists the function fills and returns, in the order of the returned tuple.\<close>

record features =
  gendersByLoan :: "cell list"
  ageGroupByLoan :: "cell list"
  effortRateByLoan :: "real list"
  savingsRateByLoan :: "real list"
  distCrimeByLoan :: "real list"
  expensesByLoan :: "real list"
  agesByLoan :: "cell list"

definition no_features :: features where
  "no_features = \<lparr>gendersByLoan = [], ageGroupByLoan = [], effortRateByLoan = [],
     savingsRateByLoan = [], distCrimeByLoan = [], expensesByLoan = [], agesByLoan = []\<rparr>"

text \<open>A \<open>for\<close> loop whose body may raise: the first exception ends the loop.\<close>

fun for_each :: "('s \<Rightarrow> 'a \<Rightarrow> error + 's) \<Rightarrow> 's \<Rightarrow> 'a list \<Rightarrow> error + 's" where
  "for_each body s [] = Inr s"
| "for_each body s (x # xs) =
     (case body s x of Inl e \<Rightarrow> Inl e | Inr s' \<Rightarrow> for_each body s' xs)"

text \<open>
  \<open>xs[i]\<close> on a list or an array: an index below zero counts from the end, and an index
  outside the list raises \<open>IndexError\<close>.
\<close>

definition valid_index :: "'a list \<Rightarrow> int \<Rightarrow> bool" where
  "valid_index xs i = (- int (length xs) \<le> i \<and> i < int (length xs))"

definition list_get :: "'a list \<Rightarrow> int \<Rightarrow> error + 'a" where
  "list_get xs i =
     (if valid_index xs i then Inr (xs ! nat (if i < 0 then int (length xs) + i else i))
      else Inl IndexError)"

text \<open>
  The inner loop over the dispositions (lines 95 to 97): every matching row overwrites
  \<open>clientId\<close>.
\<close>

fun scan_dispositions :: "disposition list \<Rightarrow> int \<Rightarrow> int option \<Rightarrow> int option" where
  "scan_dispositions [] accountId clientId = clientId"
| "scan_dispositions (rowDisp # rest) accountId clientId =
     scan_dispositions rest accountId
       (if disp_account_id rowDisp = accountId then Some (disp_client_id rowDisp) else clientId)"

text \<open>
  \<open>indexes[indexesBool][0]\<close>: the labels of the client rows whose \<open>client_id\<close> equals
  \<open>clientId\<close>, and the first of them; \<open>IndexError\<close> when there is none.
\<close>

definition matching_labels :: "client list \<Rightarrow> int \<Rightarrow> int list" where
  "matching_labels clients clientId =
     map row_label (filter (\<lambda>c. client_id c = clientId) clients)"

definition client_index :: "client list \<Rightarrow> int \<Rightarrow> error + int" where
  "client_index clients clientId = list_get (matching_labels clients clientId) 0"

text \<open>
  Lines 99 to 108: the label of the resolved client is used as an index into the three
  arrays, and the features found there are appended; when no disposition matched, a message
  is printed and nothing is appended.
\<close>

definition attach_demographics ::
  "client list \<Rightarrow> cell list \<Rightarrow> cell list \<Rightarrow> cell list \<Rightarrow> int option \<Rightarrow> features
     \<Rightarrow> error + features" where
  "attach_demographics clients genders ageGroups ages clientId acc =
     (case clientId of
        None \<Rightarrow> Inr acc
      | Some cid \<Rightarrow>
          (case client_index clients cid of
             Inl e \<Rightarrow> Inl e
           | Inr clientIndex \<Rightarrow>
               (case list_get genders clientIndex of
                  Inl e \<Rightarrow> Inl e
                | Inr g \<Rightarrow>
                    (case list_get ageGroups clientIndex of
                       Inl e \<Rightarrow> Inl e
                     | Inr ag \<Rightarrow>
                         (case list_get ages clientIndex of
                            Inl e \<Rightarrow> Inl e
                          | Inr a \<Rightarrow>
                              Inr (acc\<lparr>gendersByLoan := gendersByLoan acc @ [g],
                                       ageGroupByLoan := ageGroupByLoan acc @ [ag],
                                       agesByLoan := agesByLoan acc @ [a]\<rparr>))))))"

text \<open>
  Lines 110 to 117: the three rates are looked up and a missing key raises; a missing key of
  \<open>expenses\<close> is caught and 0 is appended.
\<close>

definition attach_rates ::
  "(int, real) dict \<Rightarrow> (int, real) dict \<Rightarrow> (int, real) dict \<Rightarrow> (int, real) dict
     \<Rightarrow> int \<Rightarrow> int \<Rightarrow> features \<Rightarrow> error + features" where
  "attach_rates effortRates savingsRates districtCrimeRates expenses loanId accountId acc =
     (case dict_get effortRates loanId of
        Inl e \<Rightarrow> Inl e
      | Inr er \<Rightarrow>
          (case dict_get savingsRates loanId of
             Inl e \<Rightarrow> Inl e
           | Inr sr \<Rightarrow>
               (case dict_get districtCrimeRates accountId of
                  Inl e \<Rightarrow> Inl e
                | Inr dc \<Rightarrow>
                    Inr (acc\<lparr>effortRateByLoan := effortRateByLoan acc @ [er],
                             savingsRateByLoan := savingsRateByLoan acc @ [sr],
                             distCrimeByLoan := distCrimeByLoan acc @ [dc],
                             expensesByLoan := expensesByLoan acc @
                               [case dict_get expenses accountId of
                                  Inl e \<Rightarrow> 0
                                | Inr x \<Rightarrow> x]\<rparr>))))"

text \<open>The body of the loop over the loans (lines 89 to 118).\<close>

definition combineFeatures_body ::
  "client list \<Rightarrow> disposition list \<Rightarrow> cell list \<Rightarrow> cell list \<Rightarrow> (int, real) dict
     \<Rightarrow> (int, real) dict \<Rightarrow> (int, real) dict \<Rightarrow> (int, real) dict \<Rightarrow> cell list
     \<Rightarrow> features \<Rightarrow> loan \<Rightarrow> error + features" where
  "combineFeatures_body clients dispositions genders ageGroups effortRates savingsRates
     districtCrimeRates expenses ages acc row =
     (let accountId = account_id row;
          loanId = loan_id row;
          clientId = scan_dispositions dispositions accountId None
      in case attach_demographics clients genders ageGroups ages clientId acc of
           Inl e \<Rightarrow> Inl e
         | Inr acc' \<Rightarrow>
             attach_rates effortRates savingsRates districtCrimeRates expenses loanId accountId
               acc')"

definition combineFeatures ::
  "loan list \<Rightarrow> client list \<Rightarrow> disposition list \<Rightarrow> cell list \<Rightarrow> cell list
     \<Rightarrow> (int, real) dict \<Rightarrow> (int, real) dict \<Rightarrow> (int, real) dict \<Rightarrow> (int, real) dict
     \<Rightarrow> cell list \<Rightarrow> error + features" where
  "combineFeatures loans clients dispositions genders ageGroups effortRates savingsRates
     districtCrimeRates expenses ages =
     for_each
       (combineFeatures_body clients dispositions genders ageGroups effortRates savingsRates
          districtCrimeRates expenses ages)
       no_features loans"

text \<open>A loan for which some rate has no entry.\<close>

definition rate_missing ::
  "(int, real) dict \<Rightarrow> (int, real) dict \<Rightarrow> (int, real) dict \<Rightarrow> loan \<Rightarrow> bool" where
  "rate_missing effortRates savingsRates districtCrimeRates row =
     (map_of effortRates (loan_id row) = None
      \<or> map_of savingsRates (loan_id row) = None
      \<or> map_of districtCrimeRates (account_id row) = None)"

text \<open>The lookups of lines 99 to 106 raise nothing for this loan.\<close>

definition demographics_ok ::
  "client list \<Rightarrow> disposition list \<Rightarrow> cell list \<Rightarrow> cell list \<Rightarrow> cell list \<Rightarrow> loan \<Rightarrow> bool" where
  "demographics_ok clients dispositions genders ageGroups ages row =
     (case scan_dispositions dispositions (account_id row) None of
        None \<Rightarrow> True
      | Some cid \<Rightarrow>
          (case client_index clients cid of
             Inl e \<Rightarrow> False
           | Inr i \<Rightarrow> valid_index genders i \<and> valid_index ageGroups i \<and> valid_index ages i))"

text \<open>\<open>KeyError\<close> and \<open>IndexError\<close> are the subclasses of Python's \<open>LookupError\<close>.\<close>

definition is_LookupError :: "error \<Rightarrow> bool" where
  "is_LookupError e = (e = KeyError \<or> e = IndexError)"

section \<open>Tables\<close>

text \<open>
  A \<open>DataFrame\<close> is the list of its columns in order, each a label with the cells of the
  column by row position; the labels are distinct and the columns have one length.  Rows are
  identified by their position.  \<open>df[col]\<close> raises \<open>KeyError\<close> when no column has the label;
  \<open>df[col] = values\<close> overwrites a column in place or appends a new one, as assignment to a
  dictionary does.
\<close>

type_synonym dataframe = "(string, cell list) dict"

fun nrows :: "dataframe \<Rightarrow> nat" where
  "nrows [] = 0"
| "nrows ((c, cells) # df) = length cells"

definition wf_frame :: "dataframe \<Rightarrow> bool" where
  "wf_frame df = (wf_dict df \<and> list_all (\<lambda>p. length (snd p) = nrows df) df)"

text \<open>\<open>df.drop(col, axis=1)\<close>: the table without the column; \<open>KeyError\<close> when it has none.\<close>

definition drop_column :: "dataframe \<Rightarrow> string \<Rightarrow> error + dataframe" where
  "drop_column df col =
     (if col \<in> set (keys df) then Inr (filter (\<lambda>p. fst p \<noteq> col) df) else Inl KeyError)"

text \<open>\<open>df[mask]\<close> for a list of booleans: the rows at the positions where the mask holds.\<close>

definition select :: "bool list \<Rightarrow> 'a list \<Rightarrow> 'a list" where
  "select flags xs = map snd (filter fst (zip flags xs))"

definition select_rows :: "bool list \<Rightarrow> dataframe \<Rightarrow> dataframe" where
  "select_rows flags df = map (\<lambda>p. (fst p, select flags (snd p))) df"

text \<open>
  The rows of a table, each the list of its cells with their labels: the view of the table
  that \<open>iterrows()\<close> gives.
\<close>

type_synonym row = "(string, cell) dict"

fun rows_upto :: "nat \<Rightarrow> dataframe \<Rightarrow> row list" where
  "rows_upto 0 df = []"
| "rows_upto (Suc n) df =
     map (\<lambda>p. (fst p, hd (snd p))) df # rows_upto n (map (\<lambda>p. (fst p, tl (snd p))) df)"

definition rows :: "dataframe \<Rightarrow> row list" where
  "rows df = rows_upto (nrows df) df"

section \<open>Cleaner: \<open>cleanData\<close>\<close>

definition columnsToRemove :: "string list" where
  "columnsToRemove = [''loan_id'', ''account_id'']"

definition cleanData :: "dataframe \<Rightarrow> error + dataframe" where
  "cleanData loansDataFrame = for_each drop_column loansDataFrame columnsToRemove"

section \<open>Outlier filter: \<open>removeOutliers\<close>\<close>

text \<open>
  The function \<open>stats.zscore\<close> belongs to SciPy and computes in double precision.  It is a
  parameter \<open>zscore\<close> of the filter: a function from the numbers of a column to their
  scores, one score for every number.  A score is a double: \<open>nan\<close>, an infinity or a finite
  number.  Nothing is assumed about how the scores are computed, so rounding, overflow and
  the \<open>nan\<close> of a constant column are all covered.
\<close>

datatype score = NaN | PlusInf | MinusInf | Score real

definition shape_preserving :: "(real list \<Rightarrow> score list) \<Rightarrow> bool" where
  "shape_preserving zscore = (\<forall>a. length (zscore a) = length a)"

text \<open>NumPy turns a column into an array of numbers; a string cell makes the arithmetic fail.\<close>

fun numbers :: "cell list \<Rightarrow> error + real list" where
  "numbers [] = Inr []"
| "numbers (Num x # cells) = (case numbers cells of Inl e \<Rightarrow> Inl e | Inr xs \<Rightarrow> Inr (x # xs))"
| "numbers (Str s # cells) = Inl TypeError"

text \<open>
  \<open>np.abs(z) < 3\<close> on one score.  The absolute value and the comparison are exact on
  doubles; a comparison with \<open>nan\<close> is false, and the absolute value of an infinity is
  infinite.
\<close>

fun abs_lt_3 :: "score \<Rightarrow> bool" where
  "abs_lt_3 NaN = False"
| "abs_lt_3 PlusInf = False"
| "abs_lt_3 MinusInf = False"
| "abs_lt_3 (Score z) = (\<bar>z\<bar> < 3)"

definition nonCategoricalColumns :: "string list" where
  "nonCategoricalColumns =
     [''savingsRate'', ''distCrime'', ''amount'', ''duration'', ''payments'', ''expenses'']"

text \<open>
  The body of the loop (line 156); the sizes and the count of outliers are only printed and
  are left out.
\<close>

definition removeOutliers_body ::
  "(real list \<Rightarrow> score list) \<Rightarrow> dataframe \<Rightarrow> string \<Rightarrow> error + dataframe" where
  "removeOutliers_body zscore result col =
     (case dict_get result col of
        Inl e \<Rightarrow> Inl e
      | Inr cells \<Rightarrow>
          (case numbers cells of
             Inl e \<Rightarrow> Inl e
           | Inr a \<Rightarrow> Inr (select_rows (map abs_lt_3 (zscore a)) result)))"

definition removeOutliers :: "(real list \<Rightarrow> score list) \<Rightarrow> dataframe \<Rightarrow> error + dataframe" where
  "removeOutliers zscore loansDataFrame =
     for_each (removeOutliers_body zscore) loansDataFrame nonCategoricalColumns"

text \<open>
  The filter in the words of the specification, on the rows of the table.  The number a row
  holds in a column, and the numbers the current rows hold in it.
\<close>

fun cell_number :: "cell \<Rightarrow> real option" where
  "cell_number (Num x) = Some x"
| "cell_number (Str s) = None"

definition row_number :: "string \<Rightarrow> row \<Rightarrow> real option" where
  "row_number col r = (case map_of r col of None \<Rightarrow> None | Some c \<Rightarrow> cell_number c)"

definition column_numbers :: "string \<Rightarrow> row list \<Rightarrow> real list" where
  "column_numbers col rs = List.map_filter (row_number col) rs"

text \<open>
  A z-score whose magnitude is strictly less than 3: a finite number strictly between
  \<open>-3\<close> and 3.
\<close>

fun magnitude_below_3 :: "score \<Rightarrow> bool" where
  "magnitude_below_3 (Score z) = (- 3 < z \<and> z < 3)"
| "magnitude_below_3 NaN = False"
| "magnitude_below_3 PlusInf = False"
| "magnitude_below_3 MinusInf = False"

text \<open>
  One step: the current rows are scored in the column, each row against all current rows,
  and exactly the rows whose score has a magnitude below 3 survive.
\<close>

definition survivors :: "(real list \<Rightarrow> score list) \<Rightarrow> string \<Rightarrow> row list \<Rightarrow> row list" where
  "survivors zscore col rs =
     map fst (filter (\<lambda>p. magnitude_below_3 (snd p)) (zip rs (zscore (column_numbers col rs))))"

text \<open>
  The columns are taken in order, and each step scores the rows that survived the steps
  before it.
\<close>

fun narrowed :: "(real list \<Rightarrow> score list) \<Rightarrow> string list \<Rightarrow> row list \<Rightarrow> row list" where
  "narrowed zscore [] rs = rs"
| "narrowed zscore (col # cols) rs = narrowed zscore cols (survivors zscore col rs)"

text \<open>The table has the column and all its cells are numbers.\<close>

definition numeric_column :: "dataframe \<Rightarrow> string \<Rightarrow> bool" where
  "numeric_column df col =
     (case map_of df col of None \<Rightarrow> False | Some cells \<Rightarrow> list_all (\<lambda>c. cell_number c \<noteq> None) cells)"

section \<open>Encoder: \<open>labelEncoding\<close>\<close>

text \<open>
  Cells of one kind are ordered as Python orders them: numbers by value, strings
  lexicographically by character code.  The encoder never compares cells of different
  kinds (a column that mixes them raises \<open>TypeError\<close>); to have one total order on cells,
  numbers are put before strings.
\<close>

instantiation cell :: linorder
begin

fun less_eq_cell :: "cell \<Rightarrow> cell \<Rightarrow> bool" where
  "less_eq_cell (Num x) (Num y) = (x \<le> y)"
| "less_eq_cell (Str s) (Str t) = (s \<le> t)"
| "less_eq_cell (Num x) (Str t) = True"
| "less_eq_cell (Str s) (Num y) = False"

definition less_cell :: "cell \<Rightarrow> cell \<Rightarrow> bool" where
  "less_cell c d = (c \<le> d \<and> \<not> d \<le> c)"

instance
proof
  fix x y z :: cell
  show "(x < y) = (x \<le> y \<and> \<not> y \<le> x)" by (simp add: less_cell_def)
  show "x \<le> x" by (cases x) simp_all
  show "x \<le> y \<Longrightarrow> y \<le> z \<Longrightarrow> x \<le> z" by (cases x; cases y; cases z) simp_all
  show "x \<le> y \<Longrightarrow> y \<le> x \<Longrightarrow> x = y" by (cases x; cases y) simp_all
  show "x \<le> y \<or> y \<le> x" by (cases x; cases y) auto
qed

end

text \<open>All cells of the column are numbers, or all are strings.\<close>

definition homogeneous :: "cell list \<Rightarrow> bool" where
  "homogeneous y =
     (list_all (\<lambda>c. cell_number c \<noteq> None) y \<or> list_all (\<lambda>c. cell_number c = None) y)"

text \<open>
  \<open>LabelEncoder.fit_transform\<close>: the classes are the distinct values of the column in
  ascending order, and every value is replaced by the position of its class.
\<close>

definition classes :: "cell list \<Rightarrow> cell list" where
  "classes y = sort (remdups y)"

fun position :: "'a list \<Rightarrow> 'a \<Rightarrow> nat" where
  "position [] c = 0"
| "position (x # xs) c = (if x = c then 0 else Suc (position xs c))"

definition label :: "cell list \<Rightarrow> cell \<Rightarrow> nat" where
  "label y c = position (classes y) c"

definition fit_transform :: "cell list \<Rightarrow> error + cell list" where
  "fit_transform y =
     (if homogeneous y then Inr (map (\<lambda>c. Num (real (label y c))) y) else Inl TypeError)"

text \<open>
  The function \<open>convertFullDate\<close> belongs to the module \<open>utils\<close>, which is not among the
  sources: it is a parameter of the encoder.  It stands for the call
  \<open>convertFullDate(str(row['date']))\<close> on a cell and returns a date or raises.
\<close>

record date =
  year :: int
  month :: int
  day :: int

text \<open>The body of the loop over the rows (lines 193 to 198).\<close>

definition split_date ::
  "(cell \<Rightarrow> error + date) \<Rightarrow> int list \<times> int list \<times> int list \<Rightarrow> row
     \<Rightarrow> error + int list \<times> int list \<times> int list" where
  "split_date convertFullDate acc row =
     (case dict_get row ''date'' of
        Inl e \<Rightarrow> Inl e
      | Inr c \<Rightarrow>
          (case convertFullDate c of
             Inl e \<Rightarrow> Inl e
           | Inr d \<Rightarrow>
               (case acc of
                  (years, months, days) \<Rightarrow>
                    Inr (years @ [year d], months @ [month d], days @ [day d]))))"

definition int_cells :: "int list \<Rightarrow> cell list" where
  "int_cells ns = map (\<lambda>n. Num (real_of_int n)) ns"

definition labelEncoding :: "(cell \<Rightarrow> error + date) \<Rightarrow> dataframe \<Rightarrow> error + dataframe" where
  "labelEncoding convertFullDate loansDataFrame =
     (case dict_get loansDataFrame ''gender'' of
        Inl e \<Rightarrow> Inl e
      | Inr gender \<Rightarrow>
     (case fit_transform gender of
        Inl e \<Rightarrow> Inl e
      | Inr encodedGender \<Rightarrow>
     (case dict_get loansDataFrame ''ageGroup'' of
        Inl e \<Rightarrow> Inl e
      | Inr ageGroup \<Rightarrow>
     (case fit_transform ageGroup of
        Inl e \<Rightarrow> Inl e
      | Inr encodedAgeGroup \<Rightarrow>
     (case drop_column loansDataFrame ''gender'' of
        Inl e \<Rightarrow> Inl e
      | Inr withoutGender \<Rightarrow>
     (case drop_column withoutGender ''ageGroup'' of
        Inl e \<Rightarrow> Inl e
      | Inr withoutAgeGroup \<Rightarrow>
          (let encodedDataFrame =
                 dict_set (dict_set withoutAgeGroup ''gender'' encodedGender)
                   ''ageGroup'' encodedAgeGroup
           in case for_each (split_date convertFullDate) ([], [], []) (rows encodedDataFrame) of
                Inl e \<Rightarrow> Inl e
              | Inr (years, months, days) \<Rightarrow>
                  (case drop_column encodedDataFrame ''date'' of
                     Inl e \<Rightarrow> Inl e
                   | Inr withoutDate \<Rightarrow>
                       Inr (dict_set (dict_set withoutDate ''month'' (int_cells months))
                              ''day'' (int_cells days))))))))))"

text \<open>
  Codes assigned by ascending sort, in the words of the specification: the codes of the
  observed values are ordered as the values are, they are the integers from 0 up to the
  number of distinct values, and the lowest value has code 0.
\<close>

definition ascending_codes :: "cell list \<Rightarrow> (cell \<Rightarrow> nat) \<Rightarrow> bool" where
  "ascending_codes y f =
     ((\<forall>c \<in> set y. \<forall>d \<in> set y. (f c < f d) = (c < d))
      \<and> f ` set y = {0..<card (set y)}
      \<and> (\<forall>c \<in> set y. (\<forall>d \<in> set y. c \<le> d) \<longrightarrow> f c = 0))"

section \<open>Properties of the dictionary operations\<close>

lemma map_of_dict_set: "map_of (dict_set d k v) = (map_of d)(k \<mapsto> v)"
  by (induction d k v rule: dict_set.induct) auto

lemma keys_dict_set:
  "keys (dict_set d k v) = (if k \<in> set (keys d) then keys d else keys d @ [k])"
  by (induction d k v rule: dict_set.induct) (auto simp: keys_def)

section \<open>Properties of the salary imputer\<close>

lemma processZeroSalaries_loop_Inr:
  assumes "\<forall>k \<in> set ks. new_salary salaries avg sub k \<noteq> None"
    and "distinct ks" and "set ks \<inter> set (keys acc) = {}"
  shows "\<exists>out. processZeroSalaries_loop salaries avg sub ks acc = Inr out
           \<and> keys out = keys acc @ ks
           \<and> (\<forall>k. map_of out k = (if k \<in> set ks then new_salary salaries avg sub k else map_of acc k))"
  using assms
proof (induction ks arbitrary: acc)
  case Nil
  then show ?case by simp
next
  case (Cons k ks)
  from Cons.prems(1) obtain v where v: "new_salary salaries avg sub k = Some v" by auto
  then obtain s where s: "map_of salaries k = Some s" and i: "imputed avg sub k s = Some v"
    by (auto simp: new_salary_def split: option.splits)
  have step: "processZeroSalaries_loop salaries avg sub (k # ks) acc
      = processZeroSalaries_loop salaries avg sub ks (dict_set acc k v)"
    using s i by (auto simp: dict_get_def imputed_def split: option.splits if_splits)
  have k_new: "k \<notin> set (keys acc)" using Cons.prems(3) by auto
  have keys': "keys (dict_set acc k v) = keys acc @ [k]"
    using k_new by (simp add: keys_dict_set)
  have "set ks \<inter> set (keys (dict_set acc k v)) = {}"
    using Cons.prems(2,3) by (auto simp: keys')
  with Cons.IH[of "dict_set acc k v"] Cons.prems obtain out where
    out: "processZeroSalaries_loop salaries avg sub ks (dict_set acc k v) = Inr out"
      "keys out = keys (dict_set acc k v) @ ks"
      "\<forall>k'. map_of out k' = (if k' \<in> set ks then new_salary salaries avg sub k' else map_of (dict_set acc k v) k')"
    by auto
  have r: "processZeroSalaries_loop salaries avg sub (k # ks) acc = Inr out"
    by (simp only: step out(1))
  have "keys out = keys acc @ k # ks" using out(2) by (simp add: keys')
  moreover have "\<forall>k'. map_of out k' =
      (if k' \<in> set (k # ks) then new_salary salaries avg sub k' else map_of acc k')"
    using out(3) Cons.prems(2) v by (auto simp: map_of_dict_set)
  ultimately show ?case using r by blast
qed

lemma processZeroSalaries_loop_Inl:
  assumes "k \<in> set ks" and "new_salary salaries avg sub k = None"
    and "\<forall>k \<in> set ks. map_of salaries k \<noteq> None"
  shows "processZeroSalaries_loop salaries avg sub ks acc = Inl KeyError"
  using assms
proof (induction ks arbitrary: acc)
  case Nil
  then show ?case by simp
next
  case (Cons a ks)
  then show ?case
    by (auto simp: dict_get_def new_salary_def imputed_def split: option.splits if_splits)
qed


lemma new_salary_of_entry:
  assumes "wf_dict salaries" and "(k, s) \<in> set salaries"
  shows "new_salary salaries avg sub k = imputed avg sub k s"
  using assms by (simp add: new_salary_def wf_dict_def keys_def)

lemma missing_average_iff:
  assumes "wf_dict salaries"
  shows "(sub \<and> missing_average salaries avg)
     \<longleftrightarrow> (\<exists>k \<in> set (keys salaries). new_salary salaries avg sub k = None)"
proof
  assume l: "sub \<and> missing_average salaries avg"
  then obtain k s where ks: "(k, s) \<in> set salaries" "s = 0" "map_of avg k = None"
    by (auto simp: missing_average_def list_ex_iff)
  then have "new_salary salaries avg sub k = None"
    using new_salary_of_entry[OF assms ks(1)] l by (simp add: imputed_def)
  moreover have "k \<in> set (keys salaries)" using ks(1) by (force simp: keys_def)
  ultimately show "\<exists>k \<in> set (keys salaries). new_salary salaries avg sub k = None" by blast
next
  assume "\<exists>k \<in> set (keys salaries). new_salary salaries avg sub k = None"
  then obtain k where k: "k \<in> set (keys salaries)" "new_salary salaries avg sub k = None"
    by blast
  then obtain s where s: "(k, s) \<in> set salaries" by (auto simp: keys_def)
  then have "imputed avg sub k s = None"
    using new_salary_of_entry[OF assms s] k(2) by simp
  then have "sub" "s = 0" "map_of avg k = None"
    by (auto simp: imputed_def split: if_splits)
  then show "sub \<and> missing_average salaries avg"
    using s by (force simp: missing_average_def list_ex_iff)
qed

text \<open>
  Claim C4.  When no zero-salary account lacks a district average while \<open>substituteWithAvg\<close>
  is set (the case in which the function raises, claim C5), \<open>processZeroSalaries\<close> returns a
  dictionary with the keys of \<open>salaries\<close>, in the same order, in which every account with
  salary 0 holds the district average if \<open>substituteWithAvg\<close> is true and the constant 1 if
  it is false, and every account with a non-zero salary keeps its value.
\<close>

theorem processZeroSalaries_imputes:
  assumes "wf_dict salaries"
    and "\<not> (substituteWithAvg \<and> missing_average salaries districtAvgSalary)"
  shows "\<exists>out. processZeroSalaries salaries districtAvgSalary substituteWithAvg = Inr out
    \<and> keys out = keys salaries
    \<and> (\<forall>k s. (k, s) \<in> set salaries \<longrightarrow>
          (s \<noteq> 0 \<longrightarrow> map_of out k = Some s)
        \<and> (s = 0 \<and> \<not> substituteWithAvg \<longrightarrow> map_of out k = Some 1)
        \<and> (s = 0 \<and> substituteWithAvg \<longrightarrow>
             (\<exists>a. map_of districtAvgSalary k = Some a \<and> map_of out k = Some a)))"
proof -
  have ok: "\<forall>k \<in> set (keys salaries).
      new_salary salaries districtAvgSalary substituteWithAvg k \<noteq> None"
    using missing_average_iff[OF assms(1), of substituteWithAvg districtAvgSalary] assms(2) by simp
  have d: "distinct (keys salaries)" using assms(1) by (simp add: wf_dict_def)
  have e: "set (keys salaries) \<inter> set (keys ([] :: (int, real) dict)) = {}"
    by (simp add: keys_def)
  from processZeroSalaries_loop_Inr[OF ok d e] obtain out where out:
    "processZeroSalaries_loop salaries districtAvgSalary substituteWithAvg (keys salaries) [] = Inr out
     \<and> keys out = keys ([] :: (int, real) dict) @ keys salaries
     \<and> (\<forall>k. map_of out k = (if k \<in> set (keys salaries)
         then new_salary salaries districtAvgSalary substituteWithAvg k
         else map_of ([] :: (int, real) dict) k))"
    by blast
  note o1 = out[THEN conjunct1] and o2 = out[THEN conjunct2, THEN conjunct1]
    and o3 = out[THEN conjunct2, THEN conjunct2, rule_format]
  have vals: "map_of out k = imputed districtAvgSalary substituteWithAvg k s"
    and some: "imputed districtAvgSalary substituteWithAvg k s \<noteq> None"
    if m: "(k, s) \<in> set salaries" for k s
  proof -
    have k: "k \<in> set (keys salaries)" using m by (force simp: keys_def)
    have n: "new_salary salaries districtAvgSalary substituteWithAvg k
        = imputed districtAvgSalary substituteWithAvg k s"
      by (rule new_salary_of_entry[OF assms(1) m])
    show "map_of out k = imputed districtAvgSalary substituteWithAvg k s"
      using o3[of k] k n by simp
    show "imputed districtAvgSalary substituteWithAvg k s \<noteq> None"
      using ok[rule_format, OF k] n by simp
  qed
  have r: "processZeroSalaries salaries districtAvgSalary substituteWithAvg = Inr out"
    using o1 by (simp add: processZeroSalaries_def)
  have ks: "keys out = keys salaries" using o2 by (simp add: keys_def)
  have v: "(s \<noteq> 0 \<longrightarrow> map_of out k = Some s)
        \<and> (s = 0 \<and> \<not> substituteWithAvg \<longrightarrow> map_of out k = Some 1)
        \<and> (s = 0 \<and> substituteWithAvg \<longrightarrow>
             (\<exists>a. map_of districtAvgSalary k = Some a \<and> map_of out k = Some a))"
    if m: "(k, s) \<in> set salaries" for k s
    using vals[OF m] some[OF m] by (cases "s = 0"; cases substituteWithAvg) (auto simp: imputed_def)
  show ?thesis
  proof (intro exI[of _ out] conjI allI impI)
    fix k s assume m: "(k, s) \<in> set salaries"
    { assume "s \<noteq> 0" then show "map_of out k = Some s" using v[OF m] by simp }
    { assume "s = 0 \<and> \<not> substituteWithAvg" then show "map_of out k = Some 1"
        using v[OF m] by simp }
    { assume "s = 0 \<and> substituteWithAvg"
      then show "\<exists>a. map_of districtAvgSalary k = Some a \<and> map_of out k = Some a"
        using v[OF m] by simp }
  qed (rule r, rule ks)
qed

theorem processZeroSalaries_imputes_witness:
  "wf_dict [(1 :: int, 0 :: real), (2, 1500), (3, 0)]
   \<and> \<not> (True \<and> missing_average [(1, 0), (2, 1500), (3, 0)] [(1, 900), (3, 1100)])
   \<and> (\<exists>out. processZeroSalaries [(1, 0), (2, 1500), (3, 0)] [(1, 900), (3, 1100)] True = Inr out
         \<and> out = [(1, 900), (2, 1500), (3, 1100)]
         \<and> keys out = [1, 2, 3]
         \<and> map_of out 1 = Some 900 \<and> map_of out 2 = Some 1500 \<and> map_of out 3 = Some 1100)"
proof -
  let ?S = "[(1 :: int, 0 :: real), (2, 1500), (3, 0)]"
  let ?A = "[(1 :: int, 900 :: real), (3, 1100)]"
  have wf: "wf_dict ?S" by (simp add: wf_dict_def keys_def)
  have nm: "\<not> (True \<and> missing_average ?S ?A)" by (simp add: missing_average_def)
  have ev: "processZeroSalaries ?S ?A True = Inr [(1, 900), (2, 1500), (3, 1100)]"
    by (simp add: processZeroSalaries_def keys_def dict_get_def)
  from processZeroSalaries_imputes[OF wf nm] obtain out where
    out: "processZeroSalaries ?S ?A True = Inr out \<and> keys out = keys ?S
      \<and> (\<forall>k s. (k, s) \<in> set ?S \<longrightarrow>
          (s \<noteq> 0 \<longrightarrow> map_of out k = Some s)
        \<and> (s = 0 \<and> \<not> True \<longrightarrow> map_of out k = Some 1)
        \<and> (s = 0 \<and> True \<longrightarrow> (\<exists>a. map_of ?A k = Some a \<and> map_of out k = Some a)))"
    by blast
  note o1 = out[THEN conjunct1] and o2 = out[THEN conjunct2, THEN conjunct1]
    and o3 = out[THEN conjunct2, THEN conjunct2, rule_format]
  have "map_of out 1 = Some 900" using o3[of 1 0] by simp
  moreover have "map_of out 2 = Some 1500" using o3[of 2 1500] by simp
  moreover have "map_of out 3 = Some 1100" using o3[of 3 0] by simp
  moreover have "keys out = [1, 2, 3]" using o2 by (simp add: keys_def)
  moreover have "out = [(1, 900), (2, 1500), (3, 1100)]" using o1 ev by simp
  ultimately show ?thesis using wf nm o1 by (intro conjI exI[of _ out]) assumption+
qed

text \<open>
  Claim C5.  \<open>processZeroSalaries\<close> raises \<open>KeyError\<close> exactly when
  \<open>substituteWithAvg\<close> is true and some account with salary 0 has no entry in
  \<open>districtAvgSalary\<close>; in every other case it returns a dictionary.
\<close>

theorem processZeroSalaries_raises:
  assumes "wf_dict salaries"
  shows "(substituteWithAvg \<and> missing_average salaries districtAvgSalary
            \<longrightarrow> processZeroSalaries salaries districtAvgSalary substituteWithAvg = Inl KeyError)
       \<and> (\<not> (substituteWithAvg \<and> missing_average salaries districtAvgSalary)
            \<longrightarrow> (\<exists>out. processZeroSalaries salaries districtAvgSalary substituteWithAvg = Inr out))"
proof (intro conjI impI)
  assume "substituteWithAvg \<and> missing_average salaries districtAvgSalary"
  then have "\<exists>k \<in> set (keys salaries).
      new_salary salaries districtAvgSalary substituteWithAvg k = None"
    using missing_average_iff[OF assms, of substituteWithAvg districtAvgSalary] by simp
  then obtain k where k: "k \<in> set (keys salaries)"
      "new_salary salaries districtAvgSalary substituteWithAvg k = None" ..
  have "\<forall>k \<in> set (keys salaries). map_of salaries k \<noteq> None"
    by (auto simp: keys_def weak_map_of_SomeI map_of_eq_None_iff)
  then show "processZeroSalaries salaries districtAvgSalary substituteWithAvg = Inl KeyError"
    unfolding processZeroSalaries_def using processZeroSalaries_loop_Inl[OF k] by blast
next
  assume n: "\<not> (substituteWithAvg \<and> missing_average salaries districtAvgSalary)"
  have ok: "\<forall>k \<in> set (keys salaries).
      new_salary salaries districtAvgSalary substituteWithAvg k \<noteq> None"
    using missing_average_iff[OF assms, of substituteWithAvg districtAvgSalary] n by simp
  have "distinct (keys salaries)" using assms by (simp add: wf_dict_def)
  moreover have "set (keys salaries) \<inter> set (keys ([] :: (int, real) dict)) = {}"
    by (simp add: keys_def)
  ultimately show "\<exists>out. processZeroSalaries salaries districtAvgSalary substituteWithAvg = Inr out"
    unfolding processZeroSalaries_def using processZeroSalaries_loop_Inr[OF ok] by blast
qed

theorem processZeroSalaries_raises_witness:
  "wf_dict [(1 :: int, 0 :: real), (2, 1500)]
   \<and> missing_average [(1, 0), (2, 1500)] [(2, 1000)]
   \<and> processZeroSalaries [(1, 0), (2, 1500)] [(2, 1000)] True = Inl KeyError
   \<and> (\<exists>out. processZeroSalaries [(1, 0), (2, 1500)] [(2, 1000)] False = Inr out)"
proof -
  let ?S = "[(1 :: int, 0 :: real), (2, 1500)]"
  let ?A = "[(2 :: int, 1000 :: real)]"
  have wf: "wf_dict ?S" by (simp add: wf_dict_def keys_def)
  have m: "missing_average ?S ?A" by (simp add: missing_average_def)
  have "processZeroSalaries ?S ?A True = Inl KeyError"
    using processZeroSalaries_raises[OF wf, of True ?A, THEN conjunct1] m by simp
  moreover have "\<exists>out. processZeroSalaries ?S ?A False = Inr out"
    using processZeroSalaries_raises[OF wf, of False ?A, THEN conjunct2] by simp
  ultimately show ?thesis using wf m by (intro conjI) assumption+
qed

section \<open>Properties of the feature joiner\<close>

subsection \<open>The loop combinator\<close>

lemma for_each_append:
  "for_each body s (xs @ ys) =
     (case for_each body s xs of Inl e \<Rightarrow> Inl e | Inr s' \<Rightarrow> for_each body s' ys)"
  by (induction xs arbitrary: s) (auto split: sum.splits)

lemma for_each_raises:
  assumes "x \<in> set xs" and "\<And>s. \<exists>e. body s x = Inl e \<and> P e"
    and "\<And>s y e. body s y = Inl e \<Longrightarrow> P e"
  shows "\<exists>e. for_each body s xs = Inl e \<and> P e"
  using assms(1)
proof (induction xs arbitrary: s)
  case Nil
  then show ?case by simp
next
  case (Cons y ys)
  show ?case
  proof (cases "body s y")
    case (Inl e)
    then show ?thesis using assms(3)[of s y e] by simp
  next
    case (Inr s')
    then have "x \<noteq> y" using assms(2)[of s] by auto
    then have "x \<in> set ys" using Cons.prems by simp
    then show ?thesis using Cons.IH[of s'] Inr by simp
  qed
qed

subsection \<open>Resolving the client of a loan\<close>

lemma scan_dispositions_last:
  "scan_dispositions dispositions accountId clientId =
     (case filter (\<lambda>d. disp_account_id d = accountId) dispositions of
        [] \<Rightarrow> clientId
      | m # ms \<Rightarrow> Some (disp_client_id (last (m # ms))))"
proof (induction dispositions arbitrary: clientId)
  case Nil
  then show ?case by simp
next
  case (Cons d ds)
  show ?case
    by (cases "filter (\<lambda>d. disp_account_id d = accountId) ds") (simp_all add: Cons.IH)
qed

lemma matching_labels_empty:
  "matching_labels clients clientId = [] \<longleftrightarrow> clientId \<notin> client_id ` set clients"
  by (auto simp: matching_labels_def filter_empty_conv)

lemma client_index_absent:
  "clientId \<notin> client_id ` set clients \<Longrightarrow> client_index clients clientId = Inl IndexError"
  by (simp add: client_index_def list_get_def valid_index_def matching_labels_empty)

lemma client_index_present:
  assumes "client_index clients clientId = Inr i"
  shows "\<exists>c \<in> set clients. client_id c = clientId \<and> row_label c = i"
proof -
  have ne: "matching_labels clients clientId \<noteq> []"
    and i: "i = hd (matching_labels clients clientId)"
    using assms
    by (auto simp: client_index_def list_get_def valid_index_def hd_conv_nth split: if_splits)
  then have "i \<in> set (matching_labels clients clientId)" by simp
  then show ?thesis by (auto simp: matching_labels_def)
qed

text \<open>
  The index found is the label of the client row, not its position, and it is used as a
  Python index into the arrays: a label beyond the array raises, a negative label counts
  from the end.
\<close>

lemma client_index_is_label:
  "client_index [\<lparr>row_label = 5, client_id = 7\<rparr>, \<lparr>row_label = - 1, client_id = 8\<rparr>] 7 = Inr 5
   \<and> list_get [Str ''M'', Str ''F''] 5 = Inl IndexError
   \<and> client_index [\<lparr>row_label = 5, client_id = 7\<rparr>, \<lparr>row_label = - 1, client_id = 8\<rparr>] 8
       = Inr (- 1)
   \<and> list_get [Str ''M'', Str ''F''] (- 1) = Inr (Str ''F'')"
  by (simp add: client_index_def matching_labels_def list_get_def valid_index_def)

subsection \<open>The body of the loop over the loans\<close>

lemma attach_demographics_error:
  "attach_demographics clients genders ageGroups ages clientId acc = Inl e \<Longrightarrow> e = IndexError"
  by (auto simp: attach_demographics_def client_index_def list_get_def
      split: option.splits sum.splits if_splits)

lemma attach_demographics_ok:
  assumes "demographics_ok clients dispositions genders ageGroups ages row"
  shows "\<exists>acc'. attach_demographics clients genders ageGroups ages
           (scan_dispositions dispositions (account_id row) None) acc = Inr acc'"
  using assms
  by (auto simp: demographics_ok_def attach_demographics_def list_get_def
      split: option.splits sum.splits)

lemma attach_demographics_frame:
  assumes "attach_demographics clients genders ageGroups ages clientId acc = Inr acc'"
  shows "effortRateByLoan acc' = effortRateByLoan acc
       \<and> savingsRateByLoan acc' = savingsRateByLoan acc
       \<and> distCrimeByLoan acc' = distCrimeByLoan acc
       \<and> expensesByLoan acc' = expensesByLoan acc
       \<and> length (gendersByLoan acc') = length (gendersByLoan acc) + (if clientId = None then 0 else 1)
       \<and> length (ageGroupByLoan acc') = length (ageGroupByLoan acc) + (if clientId = None then 0 else 1)
       \<and> length (agesByLoan acc') = length (agesByLoan acc) + (if clientId = None then 0 else 1)"
  using assms
  by (auto simp: attach_demographics_def split: option.splits sum.splits)

lemma attach_rates_error:
  "attach_rates effortRates savingsRates districtCrimeRates expenses loanId accountId acc = Inl e
     \<Longrightarrow> e = KeyError"
  by (auto simp: attach_rates_def dict_get_def split: option.splits sum.splits)

lemma attach_rates_missing:
  assumes "map_of effortRates loanId = None \<or> map_of savingsRates loanId = None
            \<or> map_of districtCrimeRates accountId = None"
  shows "attach_rates effortRates savingsRates districtCrimeRates expenses loanId accountId acc
           = Inl KeyError"
  using assms by (auto simp: attach_rates_def dict_get_def split: option.splits sum.splits)

lemma attach_rates_frame:
  assumes "attach_rates effortRates savingsRates districtCrimeRates expenses loanId accountId acc
             = Inr acc'"
  shows "gendersByLoan acc' = gendersByLoan acc
       \<and> ageGroupByLoan acc' = ageGroupByLoan acc
       \<and> agesByLoan acc' = agesByLoan acc
       \<and> length (effortRateByLoan acc') = Suc (length (effortRateByLoan acc))
       \<and> length (savingsRateByLoan acc') = Suc (length (savingsRateByLoan acc))
       \<and> length (distCrimeByLoan acc') = Suc (length (distCrimeByLoan acc))
       \<and> expensesByLoan acc' = expensesByLoan acc @
            [case map_of expenses accountId of None \<Rightarrow> 0 | Some x \<Rightarrow> x]"
  using assms
  by (auto simp: attach_rates_def dict_get_def split: option.splits sum.splits)


lemma combineFeatures_body_Inr:
  assumes "combineFeatures_body clients dispositions genders ageGroups effortRates savingsRates
             districtCrimeRates expenses ages acc row = Inr acc'"
  shows "\<exists>a. attach_demographics clients genders ageGroups ages
               (scan_dispositions dispositions (account_id row) None) acc = Inr a
           \<and> attach_rates effortRates savingsRates districtCrimeRates expenses (loan_id row)
               (account_id row) a = Inr acc'"
  using assms by (simp add: combineFeatures_body_def Let_def split: sum.splits)

lemma combineFeatures_body_error:
  assumes "combineFeatures_body clients dispositions genders ageGroups effortRates savingsRates
             districtCrimeRates expenses ages acc row = Inl e"
  shows "is_LookupError e"
    and "demographics_ok clients dispositions genders ageGroups ages row \<Longrightarrow> e = KeyError"
proof -
  let ?d = "attach_demographics clients genders ageGroups ages
               (scan_dispositions dispositions (account_id row) None) acc"
  show "is_LookupError e"
  proof (cases ?d)
    case (Inl e')
    then show ?thesis using assms attach_demographics_error[OF Inl]
      by (simp add: combineFeatures_body_def Let_def is_LookupError_def)
  next
    case (Inr a)
    then show ?thesis using assms attach_rates_error[of _ _ _ _ _ _ a e]
      by (simp add: combineFeatures_body_def Let_def is_LookupError_def)
  qed
  assume "demographics_ok clients dispositions genders ageGroups ages row"
  from attach_demographics_ok[OF this, of acc] obtain a where a: "?d = Inr a" by blast
  then show "e = KeyError" using assms attach_rates_error[of _ _ _ _ _ _ a e]
    by (simp add: combineFeatures_body_def Let_def)
qed

lemma combineFeatures_body_missing:
  assumes "rate_missing effortRates savingsRates districtCrimeRates row"
  shows "\<exists>e. combineFeatures_body clients dispositions genders ageGroups effortRates savingsRates
             districtCrimeRates expenses ages acc row = Inl e"
proof -
  let ?d = "attach_demographics clients genders ageGroups ages
               (scan_dispositions dispositions (account_id row) None) acc"
  show ?thesis
  proof (cases ?d)
    case (Inl e')
    then show ?thesis by (simp add: combineFeatures_body_def Let_def)
  next
    case (Inr a)
    have "attach_rates effortRates savingsRates districtCrimeRates expenses (loan_id row)
            (account_id row) a = Inl KeyError"
      using assms by (intro attach_rates_missing) (simp add: rate_missing_def)
    then show ?thesis using Inr by (simp add: combineFeatures_body_def Let_def)
  qed
qed

lemma combineFeatures_loop_columns:
  assumes "for_each (combineFeatures_body clients dispositions genders ageGroups effortRates
             savingsRates districtCrimeRates expenses ages) acc loans = Inr f"
  shows "length (effortRateByLoan f) = length (effortRateByLoan acc) + length loans
       \<and> length (savingsRateByLoan f) = length (savingsRateByLoan acc) + length loans
       \<and> length (distCrimeByLoan f) = length (distCrimeByLoan acc) + length loans
       \<and> expensesByLoan f = expensesByLoan acc @
            map (\<lambda>row. case map_of expenses (account_id row) of None \<Rightarrow> 0 | Some x \<Rightarrow> x) loans
       \<and> length (gendersByLoan f) = length (gendersByLoan acc) +
            length (filter (\<lambda>row. scan_dispositions dispositions (account_id row) None \<noteq> None) loans)
       \<and> length (ageGroupByLoan f) = length (ageGroupByLoan acc) +
            length (filter (\<lambda>row. scan_dispositions dispositions (account_id row) None \<noteq> None) loans)
       \<and> length (agesByLoan f) = length (agesByLoan acc) +
            length (filter (\<lambda>row. scan_dispositions dispositions (account_id row) None \<noteq> None) loans)"
  using assms
proof (induction loans arbitrary: acc)
  case Nil
  then show ?case by simp
next
  case (Cons row loans)
  let ?body = "combineFeatures_body clients dispositions genders ageGroups effortRates
             savingsRates districtCrimeRates expenses ages"
  from Cons.prems obtain acc' where b: "?body acc row = Inr acc'"
    and r: "for_each ?body acc' loans = Inr f"
    by (auto split: sum.splits)
  from combineFeatures_body_Inr[OF b] obtain a where
    d: "attach_demographics clients genders ageGroups ages
               (scan_dispositions dispositions (account_id row) None) acc = Inr a"
    and t: "attach_rates effortRates savingsRates districtCrimeRates expenses (loan_id row)
               (account_id row) a = Inr acc'"
    by blast
  note fd = attach_demographics_frame[OF d] and ft = attach_rates_frame[OF t]
  note ih = Cons.IH[OF r]
  show ?case using fd ft ih by (cases "scan_dispositions dispositions (account_id row) None") simp_all
qed

text \<open>
  Claim C1 fails on the code.  Two loans are joined; the account of the first has no
  disposition, the account of the second resolves to the client with label 1 of the default
  index.  The four rate
  columns get one entry per loan, but the three demographic columns get a single entry, the
  one of the second loan: the unresolved loan receives no entry at all (no null is appended),
  so the demographic columns are shorter than the loans table and the entry of loan 2 stands
  at the position of loan 1.
\<close>

theorem combineFeatures_unresolved_loan:
  "combineFeatures [\<lparr>loan_id = 1, account_id = 10\<rparr>, \<lparr>loan_id = 2, account_id = 20\<rparr>]
     [\<lparr>row_label = 0, client_id = 7\<rparr>, \<lparr>row_label = 1, client_id = 8\<rparr>]
     [\<lparr>disp_account_id = 20, disp_client_id = 8\<rparr>]
     [Str ''M'', Str ''F''] [Str ''adult'', Str ''senior'']
     [(1, 1 / 2), (2, 1 / 4)] [(1, 1 / 10), (2, 1 / 5)] [(10, 3), (20, 4)] [(20, 100)]
     [Num 30, Num 70]
   = Inr \<lparr>gendersByLoan = [Str ''F''], ageGroupByLoan = [Str ''senior''],
          effortRateByLoan = [1 / 2, 1 / 4], savingsRateByLoan = [1 / 10, 1 / 5],
          distCrimeByLoan = [3, 4], expensesByLoan = [0, 100], agesByLoan = [Num 70]\<rparr>"
  by (simp add: combineFeatures_def combineFeatures_body_def attach_demographics_def
      attach_rates_def client_index_def matching_labels_def list_get_def valid_index_def
      dict_get_def no_features_def)

lemma combineFeatures_body_returns:
  assumes "demographics_ok clients dispositions genders ageGroups ages row"
    and "\<not> rate_missing effortRates savingsRates districtCrimeRates row"
  shows "\<exists>acc'. combineFeatures_body clients dispositions genders ageGroups effortRates
           savingsRates districtCrimeRates expenses ages acc row = Inr acc'"
proof -
  from attach_demographics_ok[OF assms(1), of acc] obtain a where
    a: "attach_demographics clients genders ageGroups ages
          (scan_dispositions dispositions (account_id row) None) acc = Inr a"
    by blast
  from assms(2) obtain er sr dc where "map_of effortRates (loan_id row) = Some er"
    and "map_of savingsRates (loan_id row) = Some sr"
    and "map_of districtCrimeRates (account_id row) = Some dc"
    by (auto simp: rate_missing_def)
  then have "\<exists>acc'. attach_rates effortRates savingsRates districtCrimeRates expenses
      (loan_id row) (account_id row) a = Inr acc'"
    by (simp add: attach_rates_def dict_get_def)
  then show ?thesis using a by (simp add: combineFeatures_body_def Let_def)
qed

lemma combineFeatures_loop_returns:
  assumes "list_all (demographics_ok clients dispositions genders ageGroups ages) loans"
    and "\<not> list_ex (rate_missing effortRates savingsRates districtCrimeRates) loans"
  shows "\<exists>f. for_each (combineFeatures_body clients dispositions genders ageGroups effortRates
           savingsRates districtCrimeRates expenses ages) acc loans = Inr f"
  using assms
proof (induction loans arbitrary: acc)
  case Nil
  then show ?case by simp
next
  case (Cons row loans)
  have "demographics_ok clients dispositions genders ageGroups ages row"
    and "\<not> rate_missing effortRates savingsRates districtCrimeRates row"
    using Cons.prems by simp_all
  from combineFeatures_body_returns[OF this, of expenses acc] obtain acc' where
    b: "combineFeatures_body clients dispositions genders ageGroups effortRates
           savingsRates districtCrimeRates expenses ages acc row = Inr acc'"
    by blast
  have "list_all (demographics_ok clients dispositions genders ageGroups ages) loans"
    and "\<not> list_ex (rate_missing effortRates savingsRates districtCrimeRates) loans"
    using Cons.prems by simp_all
  from Cons.IH[OF this, of acc'] show ?case using b by simp
qed

text \<open>
  Claim C6.  A missing key of \<open>expenses\<close> never ends the run: when every loan has its three
  rates and its client lookups raise nothing, \<open>combineFeatures\<close> returns, whatever keys
  \<open>expenses\<close> has, and the entry of every loan in the expenses column is the value of
  \<open>expenses\<close> at the loan's \<open>account_id\<close>, or 0 when that key is missing; the same holds of
  the expenses column of every run that returns.  When some loan has no entry in
  \<open>effortRates\<close> or \<open>savingsRates\<close> (at its \<open>loan_id\<close>) or in \<open>districtCrimeRates\<close> (at
  its \<open>account_id\<close>), the run ends with a lookup error, and this error is \<open>KeyError\<close>
  whenever the client lookups of the loans raise nothing before it.
\<close>

theorem combineFeatures_missing_keys:
  "(list_all (demographics_ok clients dispositions genders ageGroups ages) loans
      \<and> \<not> list_ex (rate_missing effortRates savingsRates districtCrimeRates) loans
    \<longrightarrow> (\<exists>g. combineFeatures loans clients dispositions genders ageGroups effortRates
                savingsRates districtCrimeRates expenses ages = Inr g
             \<and> expensesByLoan g =
                 map (\<lambda>row. case map_of expenses (account_id row) of None \<Rightarrow> 0 | Some x \<Rightarrow> x)
                   loans))
   \<and> (combineFeatures loans clients dispositions genders ageGroups effortRates savingsRates
      districtCrimeRates expenses ages = Inr f
    \<longrightarrow> expensesByLoan f =
          map (\<lambda>row. case map_of expenses (account_id row) of None \<Rightarrow> 0 | Some x \<Rightarrow> x) loans)
   \<and> (list_ex (rate_missing effortRates savingsRates districtCrimeRates) loans
    \<longrightarrow> (\<exists>e. combineFeatures loans clients dispositions genders ageGroups effortRates
                savingsRates districtCrimeRates expenses ages = Inl e \<and> is_LookupError e)
      \<and> (list_all (demographics_ok clients dispositions genders ageGroups ages) loans
          \<longrightarrow> combineFeatures loans clients dispositions genders ageGroups effortRates
                savingsRates districtCrimeRates expenses ages = Inl KeyError))"
proof (intro conjI impI)
  let ?body = "combineFeatures_body clients dispositions genders ageGroups effortRates
             savingsRates districtCrimeRates expenses ages"
  have exp: "expensesByLoan h =
          map (\<lambda>row. case map_of expenses (account_id row) of None \<Rightarrow> 0 | Some x \<Rightarrow> x) loans"
    if "for_each ?body no_features loans = Inr h" for h
    using combineFeatures_loop_columns[OF that] by (simp add: no_features_def)
  {
    assume "list_all (demographics_ok clients dispositions genders ageGroups ages) loans
      \<and> \<not> list_ex (rate_missing effortRates savingsRates districtCrimeRates) loans"
    then have "\<exists>g. for_each ?body no_features loans = Inr g"
      by (intro combineFeatures_loop_returns) simp_all
    then obtain g where g: "for_each ?body no_features loans = Inr g" by blast
    show "\<exists>g. combineFeatures loans clients dispositions genders ageGroups effortRates
                savingsRates districtCrimeRates expenses ages = Inr g
             \<and> expensesByLoan g =
                 map (\<lambda>row. case map_of expenses (account_id row) of None \<Rightarrow> 0 | Some x \<Rightarrow> x)
                   loans"
      using g exp[OF g] by (simp add: combineFeatures_def)
  }
  {
    assume "combineFeatures loans clients dispositions genders ageGroups effortRates savingsRates
      districtCrimeRates expenses ages = Inr f"
    then have "for_each ?body no_features loans = Inr f" by (simp add: combineFeatures_def)
    then show "expensesByLoan f =
          map (\<lambda>row. case map_of expenses (account_id row) of None \<Rightarrow> 0 | Some x \<Rightarrow> x) loans"
      by (rule exp)
  }
  assume "list_ex (rate_missing effortRates savingsRates districtCrimeRates) loans"
  then obtain row where row: "row \<in> set loans"
    and m: "rate_missing effortRates savingsRates districtCrimeRates row"
    by (auto simp: list_ex_iff)
  have raise: "\<exists>e. ?body s row = Inl e \<and> is_LookupError e" for s
    using combineFeatures_body_missing[OF m, of clients dispositions genders ageGroups expenses ages s]
      combineFeatures_body_error(1) by blast
  have kinds: "is_LookupError e" if "?body s y = Inl e" for s y e
    using combineFeatures_body_error(1)[OF that] .
  from for_each_raises[of row loans ?body is_LookupError no_features, OF row raise kinds]
  show "\<exists>e. combineFeatures loans clients dispositions genders ageGroups effortRates
                savingsRates districtCrimeRates expenses ages = Inl e \<and> is_LookupError e"
    by (simp add: combineFeatures_def)
  assume "list_all (demographics_ok clients dispositions genders ageGroups ages) loans"
  then have ok: "demographics_ok clients dispositions genders ageGroups ages y"
    if "y \<in> set loans" for y using that by (simp add: list_all_iff)
  have "\<exists>e. for_each ?body s loans = Inl e \<and> e = KeyError" for s
    using row ok
  proof (induction loans arbitrary: s)
    case Nil
    then show ?case by simp
  next
    case (Cons y ys)
    show ?case
    proof (cases "?body s y")
      case (Inl e)
      then show ?thesis using combineFeatures_body_error(2)[OF Inl] Cons.prems(2)[of y] by simp
    next
      case (Inr s')
      then have "row \<noteq> y" using raise[of s] by auto
      then have "row \<in> set ys" using Cons.prems(1) by simp
      then show ?thesis using Cons.IH[of s'] Cons.prems(2) Inr by simp
    qed
  qed
  then show "combineFeatures loans clients dispositions genders ageGroups effortRates
                savingsRates districtCrimeRates expenses ages = Inl KeyError"
    by (simp add: combineFeatures_def)
qed

text \<open>
  Claim C7.  For a loan whose \<open>account_id\<close> occurs in at least one disposition row, the scan
  resolves \<open>clientId\<close> to the \<open>client_id\<close> of the last matching row, and the loop body
  attaches the demographic features of that client.
\<close>

theorem scan_dispositions_last_match:
  assumes "filter (\<lambda>d. disp_account_id d = account_id row) dispositions = ms" and "ms \<noteq> []"
  shows "scan_dispositions dispositions (account_id row) None = Some (disp_client_id (last ms))
    \<and> combineFeatures_body clients dispositions genders ageGroups effortRates savingsRates
        districtCrimeRates expenses ages acc row =
       (case attach_demographics clients genders ageGroups ages
               (Some (disp_client_id (last ms))) acc of
          Inl e \<Rightarrow> Inl e
        | Inr acc' \<Rightarrow>
            attach_rates effortRates savingsRates districtCrimeRates expenses (loan_id row)
              (account_id row) acc')"
proof -
  have s: "scan_dispositions dispositions (account_id row) None = Some (disp_client_id (last ms))"
    using assms by (cases ms) (simp_all add: scan_dispositions_last)
  then show ?thesis by (simp add: combineFeatures_body_def Let_def)
qed

text \<open>
  Claim C10.  When the loans before it are joined without an exception and a loan's account
  resolves to a \<open>client_id\<close> that no row of the clients table holds, \<open>combineFeatures\<close>
  ends with \<open>IndexError\<close>, whatever loans follow: the loan is not treated as one without a
  client.
\<close>

theorem combineFeatures_absent_client:
  assumes "combineFeatures pre clients dispositions genders ageGroups effortRates savingsRates
             districtCrimeRates expenses ages = Inr f"
    and "scan_dispositions dispositions (account_id row) None = Some cid"
    and "cid \<notin> client_id ` set clients"
  shows "combineFeatures (pre @ row # rest) clients dispositions genders ageGroups effortRates
           savingsRates districtCrimeRates expenses ages = Inl IndexError"
proof -
  have "combineFeatures_body clients dispositions genders ageGroups effortRates savingsRates
          districtCrimeRates expenses ages f row = Inl IndexError"
    using assms(2) client_index_absent[OF assms(3)]
    by (simp add: combineFeatures_body_def Let_def attach_demographics_def)
  then show ?thesis using assms(1) by (simp add: combineFeatures_def for_each_append)
qed


theorem combineFeatures_missing_keys_witness:
  "list_all (demographics_ok [\<lparr>row_label = 0, client_id = 7\<rparr>] [\<lparr>disp_account_id = 10, disp_client_id = 7\<rparr>]
         [Str ''M''] [Str ''adult''] [Num 30]) [\<lparr>loan_id = 1, account_id = 10\<rparr>]
   \<and> \<not> list_ex (rate_missing [(1, 1 / 2)] [(1, 1 / 10)] [(10, 3)])
         [\<lparr>loan_id = 1, account_id = 10\<rparr>]
   \<and> map_of ([] :: (int, real) dict) 10 = None
   \<and> combineFeatures [\<lparr>loan_id = 1, account_id = 10\<rparr>] [\<lparr>row_label = 0, client_id = 7\<rparr>]
      [\<lparr>disp_account_id = 10, disp_client_id = 7\<rparr>] [Str ''M''] [Str ''adult'']
      [(1, 1 / 2)] [(1, 1 / 10)] [(10, 3)] [] [Num 30]
     = Inr \<lparr>gendersByLoan = [Str ''M''], ageGroupByLoan = [Str ''adult''],
          effortRateByLoan = [1 / 2], savingsRateByLoan = [1 / 10],
          distCrimeByLoan = [3], expensesByLoan = [0], agesByLoan = [Num 30]\<rparr>
   \<and> list_ex (rate_missing [(1, 1 / 2)] [] [(10, 3)]) [\<lparr>loan_id = 1, account_id = 10\<rparr>]
   \<and> combineFeatures [\<lparr>loan_id = 1, account_id = 10\<rparr>] [\<lparr>row_label = 0, client_id = 7\<rparr>]
      [\<lparr>disp_account_id = 10, disp_client_id = 7\<rparr>] [Str ''M''] [Str ''adult'']
      [(1, 1 / 2)] [] [(10, 3)] [(10, 55)] [Num 30]
     = Inl KeyError"
proof -
  let ?L = "[\<lparr>loan_id = 1, account_id = 10\<rparr>]"
  let ?C = "[\<lparr>row_label = 0, client_id = 7\<rparr>]"
  let ?D = "[\<lparr>disp_account_id = 10, disp_client_id = 7\<rparr>]"
  have ok: "list_all (demographics_ok ?C ?D [Str ''M''] [Str ''adult''] [Num 30]) ?L"
    by (simp add: demographics_ok_def client_index_def matching_labels_def list_get_def
        valid_index_def)
  have nm: "\<not> list_ex (rate_missing [(1, 1 / 2)] [(1, 1 / 10)] [(10, 3)]) ?L"
    by (simp add: rate_missing_def)
  have ne: "map_of ([] :: (int, real) dict) 10 = None" by simp
  from combineFeatures_missing_keys[THEN conjunct1, rule_format, OF conjI, OF ok nm,
      of "[]"]
  obtain g where gg: "combineFeatures ?L ?C ?D [Str ''M''] [Str ''adult''] [(1, 1 / 2)]
      [(1, 1 / 10)] [(10, 3)] [] [Num 30] = Inr g
      \<and> expensesByLoan g =
          map (\<lambda>row. case map_of ([] :: (int, real) dict) (account_id row) of None \<Rightarrow> 0
                      | Some x \<Rightarrow> x) ?L"
    by (rule exE)
  have ge: "expensesByLoan g = [0]" using gg[THEN conjunct2] by simp
  have "\<exists>f. combineFeatures ?L ?C ?D [Str ''M''] [Str ''adult''] [(1, 1 / 2)] [(1, 1 / 10)]
      [(10, 3)] [] [Num 30] = Inr f
      \<and> gendersByLoan f = [Str ''M''] \<and> ageGroupByLoan f = [Str ''adult'']
      \<and> effortRateByLoan f = [1 / 2] \<and> savingsRateByLoan f = [1 / 10]
      \<and> distCrimeByLoan f = [3] \<and> agesByLoan f = [Num 30]"
    by (simp add: combineFeatures_def combineFeatures_body_def attach_demographics_def
        attach_rates_def client_index_def matching_labels_def list_get_def valid_index_def
        dict_get_def no_features_def)
  then obtain f where f: "combineFeatures ?L ?C ?D [Str ''M''] [Str ''adult''] [(1, 1 / 2)]
      [(1, 1 / 10)] [(10, 3)] [] [Num 30] = Inr f"
    and c: "gendersByLoan f = [Str ''M'']" "ageGroupByLoan f = [Str ''adult'']"
      "effortRateByLoan f = [1 / 2]" "savingsRateByLoan f = [1 / 10]"
      "distCrimeByLoan f = [3]" "agesByLoan f = [Num 30]"
    by blast
  have "f = g" using f gg[THEN conjunct1] by simp
  then have "f = \<lparr>gendersByLoan = [Str ''M''], ageGroupByLoan = [Str ''adult''],
          effortRateByLoan = [1 / 2], savingsRateByLoan = [1 / 10],
          distCrimeByLoan = [3], expensesByLoan = [0], agesByLoan = [Num 30]\<rparr>"
    using c ge by (cases f) simp
  then have one: "combineFeatures ?L ?C ?D [Str ''M''] [Str ''adult''] [(1, 1 / 2)]
      [(1, 1 / 10)] [(10, 3)] [] [Num 30]
     = Inr \<lparr>gendersByLoan = [Str ''M''], ageGroupByLoan = [Str ''adult''],
          effortRateByLoan = [1 / 2], savingsRateByLoan = [1 / 10],
          distCrimeByLoan = [3], expensesByLoan = [0], agesByLoan = [Num 30]\<rparr>"
    using f by simp
  have m: "list_ex (rate_missing [(1, 1 / 2)] [] [(10, 3)]) ?L"
    by (simp add: rate_missing_def)
  have two: "combineFeatures ?L ?C ?D [Str ''M''] [Str ''adult''] [(1, 1 / 2)] [] [(10, 3)]
      [(10, 55)] [Num 30] = Inl KeyError"
    using combineFeatures_missing_keys[THEN conjunct2, THEN conjunct2, rule_format, OF m,
        THEN conjunct2, rule_format, OF ok] .
  show ?thesis using ok nm ne one m two by (intro conjI)
qed

theorem scan_dispositions_last_match_witness:
  "filter (\<lambda>d. disp_account_id d = account_id \<lparr>loan_id = 1, account_id = 10\<rparr>)
      [\<lparr>disp_account_id = 10, disp_client_id = 7\<rparr>, \<lparr>disp_account_id = 20, disp_client_id = 5\<rparr>,
       \<lparr>disp_account_id = 10, disp_client_id = 8\<rparr>]
     = [\<lparr>disp_account_id = 10, disp_client_id = 7\<rparr>, \<lparr>disp_account_id = 10, disp_client_id = 8\<rparr>]
   \<and> scan_dispositions
      [\<lparr>disp_account_id = 10, disp_client_id = 7\<rparr>, \<lparr>disp_account_id = 20, disp_client_id = 5\<rparr>,
       \<lparr>disp_account_id = 10, disp_client_id = 8\<rparr>] 10 None = Some 8"
proof -
  let ?D = "[\<lparr>disp_account_id = 10, disp_client_id = 7\<rparr>, \<lparr>disp_account_id = 20, disp_client_id = 5\<rparr>,
       \<lparr>disp_account_id = 10, disp_client_id = 8\<rparr>]"
  let ?ms = "[\<lparr>disp_account_id = 10, disp_client_id = 7\<rparr>, \<lparr>disp_account_id = 10, disp_client_id = 8\<rparr>]"
  have fl: "filter (\<lambda>d. disp_account_id d = account_id \<lparr>loan_id = 1, account_id = 10\<rparr>) ?D = ?ms"
    by simp
  have ne: "?ms \<noteq> []" by simp
  have "scan_dispositions ?D 10 None = Some 8"
    using scan_dispositions_last_match[OF fl ne, THEN conjunct1] by simp
  then show ?thesis using fl by (intro conjI)
qed

theorem combineFeatures_absent_client_witness:
  "combineFeatures [\<lparr>loan_id = 1, account_id = 10\<rparr>] [\<lparr>row_label = 0, client_id = 7\<rparr>, \<lparr>row_label = 1, client_id = 8\<rparr>]
      [\<lparr>disp_account_id = 10, disp_client_id = 7\<rparr>, \<lparr>disp_account_id = 20, disp_client_id = 99\<rparr>]
      [Str ''M'', Str ''F''] [Str ''adult'', Str ''senior'']
      [(1, 1 / 2), (2, 1 / 4)] [(1, 1 / 10), (2, 1 / 5)] [(10, 3), (20, 4)] [] [Num 30, Num 70]
     = Inr \<lparr>gendersByLoan = [Str ''M''], ageGroupByLoan = [Str ''adult''],
          effortRateByLoan = [1 / 2], savingsRateByLoan = [1 / 10],
          distCrimeByLoan = [3], expensesByLoan = [0], agesByLoan = [Num 30]\<rparr>
   \<and> scan_dispositions
        [\<lparr>disp_account_id = 10, disp_client_id = 7\<rparr>, \<lparr>disp_account_id = 20, disp_client_id = 99\<rparr>]
        (account_id \<lparr>loan_id = 2, account_id = 20\<rparr>) None = Some 99
   \<and> 99 \<notin> client_id ` set [\<lparr>row_label = 0, client_id = 7\<rparr>, \<lparr>row_label = 1, client_id = 8\<rparr>]
   \<and> combineFeatures [\<lparr>loan_id = 1, account_id = 10\<rparr>, \<lparr>loan_id = 2, account_id = 20\<rparr>] [\<lparr>row_label = 0, client_id = 7\<rparr>, \<lparr>row_label = 1, client_id = 8\<rparr>]
      [\<lparr>disp_account_id = 10, disp_client_id = 7\<rparr>, \<lparr>disp_account_id = 20, disp_client_id = 99\<rparr>]
      [Str ''M'', Str ''F''] [Str ''adult'', Str ''senior'']
      [(1, 1 / 2), (2, 1 / 4)] [(1, 1 / 10), (2, 1 / 5)] [(10, 3), (20, 4)] [] [Num 30, Num 70]
     = Inl IndexError"
proof -
  let ?D = "[\<lparr>disp_account_id = 10, disp_client_id = 7\<rparr>, \<lparr>disp_account_id = 20, disp_client_id = 99\<rparr>]"
  have pre: "combineFeatures [\<lparr>loan_id = 1, account_id = 10\<rparr>] [\<lparr>row_label = 0, client_id = 7\<rparr>, \<lparr>row_label = 1, client_id = 8\<rparr>] ?D
      [Str ''M'', Str ''F''] [Str ''adult'', Str ''senior'']
      [(1, 1 / 2), (2, 1 / 4)] [(1, 1 / 10), (2, 1 / 5)] [(10, 3), (20, 4)] [] [Num 30, Num 70]
     = Inr \<lparr>gendersByLoan = [Str ''M''], ageGroupByLoan = [Str ''adult''],
          effortRateByLoan = [1 / 2], savingsRateByLoan = [1 / 10],
          distCrimeByLoan = [3], expensesByLoan = [0], agesByLoan = [Num 30]\<rparr>"
    by (simp add: combineFeatures_def combineFeatures_body_def attach_demographics_def
        attach_rates_def client_index_def matching_labels_def list_get_def valid_index_def
      dict_get_def no_features_def)
  have sc: "scan_dispositions ?D (account_id \<lparr>loan_id = 2, account_id = 20\<rparr>) None = Some 99"
    by simp
  have ab: "99 \<notin> client_id ` set [\<lparr>row_label = 0, client_id = 7\<rparr>, \<lparr>row_label = 1, client_id = 8\<rparr>]" by simp
  have "combineFeatures ([\<lparr>loan_id = 1, account_id = 10\<rparr>] @ \<lparr>loan_id = 2, account_id = 20\<rparr> # [])
      [\<lparr>row_label = 0, client_id = 7\<rparr>, \<lparr>row_label = 1, client_id = 8\<rparr>] ?D [Str ''M'', Str ''F''] [Str ''adult'', Str ''senior'']
      [(1, 1 / 2), (2, 1 / 4)] [(1, 1 / 10), (2, 1 / 5)] [(10, 3), (20, 4)] [] [Num 30, Num 70]
     = Inl IndexError"
    by (rule combineFeatures_absent_client[OF pre sc ab])
  then have r: "combineFeatures [\<lparr>loan_id = 1, account_id = 10\<rparr>, \<lparr>loan_id = 2, account_id = 20\<rparr>]
      [\<lparr>row_label = 0, client_id = 7\<rparr>, \<lparr>row_label = 1, client_id = 8\<rparr>] ?D [Str ''M'', Str ''F''] [Str ''adult'', Str ''senior'']
      [(1, 1 / 2), (2, 1 / 4)] [(1, 1 / 10), (2, 1 / 5)] [(10, 3), (20, 4)] [] [Num 30, Num 70]
     = Inl IndexError"
    by simp
  show ?thesis using pre sc ab r by (intro conjI)
qed

section \<open>Properties of the cleaner\<close>

subsection \<open>Dropping columns\<close>

lemma map_of_filter_keys:
  "map_of (filter (\<lambda>p. P (fst p)) df) c = (if P c then map_of df c else None)"
  by (induction df) auto

lemma keys_filter: "keys (filter (\<lambda>p. P (fst p)) df) = filter P (keys df)"
  by (induction df) (auto simp: keys_def)

text \<open>
  Claim C8.  For a table that has the columns \<open>loan_id\<close> and \<open>account_id\<close>, \<open>cleanData\<close>
  returns a table whose columns are those of the input without these two, in the same
  order, and every remaining column holds the cells it held before.
\<close>

theorem cleanData_drops_identifiers:
  assumes "''loan_id'' \<in> set (keys df)" and "''account_id'' \<in> set (keys df)"
  shows "\<exists>out. cleanData df = Inr out
    \<and> keys out = filter (\<lambda>c. c \<noteq> ''loan_id'' \<and> c \<noteq> ''account_id'') (keys df)
    \<and> ''loan_id'' \<notin> set (keys out) \<and> ''account_id'' \<notin> set (keys out)
    \<and> (\<forall>c. c \<noteq> ''loan_id'' \<and> c \<noteq> ''account_id'' \<longrightarrow> map_of out c = map_of df c)"
proof -
  define d1 where "d1 = filter (\<lambda>p. fst p \<noteq> ''loan_id'') df"
  define out where "out = filter (\<lambda>p. fst p \<noteq> ''account_id'') d1"
  have k1: "keys d1 = filter (\<lambda>c. c \<noteq> ''loan_id'') (keys df)"
    unfolding d1_def by (rule keys_filter)
  have k2: "keys out = filter (\<lambda>c. c \<noteq> ''account_id'') (keys d1)"
    unfolding out_def by (rule keys_filter)
  have s1: "drop_column df ''loan_id'' = Inr d1"
    using assms(1) by (simp add: drop_column_def d1_def)
  have "''account_id'' \<in> set (keys d1)" using assms(2) by (simp add: k1)
  then have s2: "drop_column d1 ''account_id'' = Inr out"
    by (simp add: drop_column_def out_def)
  have r: "cleanData df = Inr out"
    by (simp add: cleanData_def columnsToRemove_def s1 s2)
  have ks: "keys out = filter (\<lambda>c. c \<noteq> ''loan_id'' \<and> c \<noteq> ''account_id'') (keys df)"
    by (simp add: k1 k2 conj_commute)
  have v1: "map_of d1 c = map_of df c" if "c \<noteq> ''loan_id''" for c
    unfolding d1_def using that map_of_filter_keys[of "\<lambda>c. c \<noteq> ''loan_id''" df c] by simp
  have v2: "map_of out c = map_of d1 c" if "c \<noteq> ''account_id''" for c
    unfolding out_def using that map_of_filter_keys[of "\<lambda>c. c \<noteq> ''account_id''" d1 c] by simp
  show ?thesis
  proof (intro exI[of _ out] conjI allI impI)
    show "cleanData df = Inr out" by (rule r)
    show "keys out = filter (\<lambda>c. c \<noteq> ''loan_id'' \<and> c \<noteq> ''account_id'') (keys df)" by (rule ks)
    show "''loan_id'' \<notin> set (keys out)" by (simp add: ks)
    show "''account_id'' \<notin> set (keys out)" by (simp add: ks)
    show "map_of out c = map_of df c" if "c \<noteq> ''loan_id'' \<and> c \<noteq> ''account_id''" for c
      using that v1[of c] v2[of c] by simp
  qed
qed

theorem cleanData_drops_identifiers_witness:
  "''loan_id'' \<in> set (keys [(''loan_id'', [Num 1, Num 2]), (''amount'', [Num 10, Num 20]),
        (''account_id'', [Num 3, Num 4]), (''gender'', [Str ''F'', Str ''M''])])
   \<and> ''account_id'' \<in> set (keys [(''loan_id'', [Num 1, Num 2]), (''amount'', [Num 10, Num 20]),
        (''account_id'', [Num 3, Num 4]), (''gender'', [Str ''F'', Str ''M''])])
   \<and> (\<exists>out. cleanData [(''loan_id'', [Num 1, Num 2]), (''amount'', [Num 10, Num 20]),
        (''account_id'', [Num 3, Num 4]), (''gender'', [Str ''F'', Str ''M''])] = Inr out
       \<and> keys out = [''amount'', ''gender'']
       \<and> map_of out ''amount'' = Some [Num 10, Num 20]
       \<and> map_of out ''gender'' = Some [Str ''F'', Str ''M''])"
proof -
  let ?df = "[(''loan_id'', [Num 1, Num 2]), (''amount'', [Num 10, Num 20]),
        (''account_id'', [Num 3, Num 4]), (''gender'', [Str ''F'', Str ''M''])]"
  have a: "''loan_id'' \<in> set (keys ?df)" by (simp add: keys_def)
  have b: "''account_id'' \<in> set (keys ?df)" by (simp add: keys_def)
  from cleanData_drops_identifiers[OF a b] obtain out where
    out: "cleanData ?df = Inr out
    \<and> keys out = filter (\<lambda>c. c \<noteq> ''loan_id'' \<and> c \<noteq> ''account_id'') (keys ?df)
    \<and> ''loan_id'' \<notin> set (keys out) \<and> ''account_id'' \<notin> set (keys out)
    \<and> (\<forall>c. c \<noteq> ''loan_id'' \<and> c \<noteq> ''account_id'' \<longrightarrow> map_of out c = map_of ?df c)"
    by blast
  have r: "cleanData ?df = Inr out" using out by (rule conjunct1)
  have k: "keys out = [''amount'', ''gender'']"
    using out[THEN conjunct2, THEN conjunct1] by (simp add: keys_def)
  note v = out[THEN conjunct2, THEN conjunct2, THEN conjunct2, THEN conjunct2, rule_format]
  have am: "map_of out ''amount'' = Some [Num 10, Num 20]" using v[of "''amount''"] by simp
  have ge: "map_of out ''gender'' = Some [Str ''F'', Str ''M'']" using v[of "''gender''"] by simp
  show ?thesis using a b r k am ge by (intro conjI exI[of _ out])
qed

section \<open>Properties of the outlier filter\<close>

subsection \<open>Selecting rows by a list of booleans\<close>

lemma select_Nil [simp]: "select [] xs = []" "select flags [] = []"
  by (simp_all add: select_def)

lemma select_Cons [simp]:
  "select (b # flags) (x # xs) = (if b then x # select flags xs else select flags xs)"
  by (simp add: select_def)

lemma select_map_self: "select (map P xs) xs = filter P xs"
  by (induction xs) simp_all

lemma length_select:
  "length xs = length flags \<Longrightarrow> length (select flags xs) = length (filter id flags)"
proof (induction flags arbitrary: xs)
  case Nil
  then show ?case by simp
next
  case (Cons b flags)
  then show ?case by (cases xs) simp_all
qed

lemma set_select: "set (select flags xs) \<subseteq> set xs"
proof (induction flags arbitrary: xs)
  case Nil
  then show ?case by simp
next
  case (Cons b flags)
  then show ?case by (cases xs) auto
qed

lemma keys_select_rows: "keys (select_rows flags df) = keys df"
  by (simp add: keys_def select_rows_def comp_def)

lemma map_of_select_rows:
  "map_of (select_rows flags df) c = map_option (select flags) (map_of df c)"
  by (induction df) (auto simp: select_rows_def)

lemma map_of_map_cells:
  "map_of (map (\<lambda>p. (fst p, f (snd p))) df) c = map_option f (map_of df c)"
  by (induction df) auto

lemma rows_upto_select:
  assumes "\<forall>p \<in> set df. length (snd p) = length flags"
  shows "rows_upto (length (filter id flags)) (select_rows flags df)
           = select flags (rows_upto (length flags) df)"
  using assms
proof (induction flags arbitrary: df)
  case Nil
  then show ?case by simp
next
  case (Cons b flags)
  let ?tails = "map (\<lambda>p. (fst p, tl (snd p))) df"
  let ?heads = "map (\<lambda>p. (fst p, hd (snd p))) df"
  have split: "snd p = hd (snd p) # tl (snd p)" if "p \<in> set df" for p
    using Cons.prems that by (cases "snd p") auto
  have "\<forall>p \<in> set ?tails. length (snd p) = length flags"
    using Cons.prems by auto
  note ih = Cons.IH[OF this]
  show ?case
  proof (cases b)
    case True
    have sel: "select_rows (b # flags) df
        = map (\<lambda>p. (fst p, hd (snd p) # select flags (tl (snd p)))) df"
      unfolding select_rows_def
    proof (rule map_cong[OF refl])
      fix p assume "p \<in> set df"
      from split[OF this] have "select (b # flags) (snd p)
          = select (b # flags) (hd (snd p) # tl (snd p))" by simp
      then show "(fst p, select (b # flags) (snd p))
          = (fst p, hd (snd p) # select flags (tl (snd p)))"
        using True by simp
    qed
    have "rows_upto (Suc (length (filter id flags))) (select_rows (b # flags) df)
        = ?heads # rows_upto (length (filter id flags)) (select_rows flags ?tails)"
      unfolding sel by (simp add: comp_def select_rows_def)
    then have lhs: "rows_upto (length (filter id (b # flags))) (select_rows (b # flags) df)
        = ?heads # rows_upto (length (filter id flags)) (select_rows flags ?tails)"
      using True by simp
    have rhs: "select (b # flags) (rows_upto (length (b # flags)) df)
        = ?heads # select flags (rows_upto (length flags) ?tails)"
      using True by simp
    show ?thesis by (simp only: lhs rhs ih)
  next
    case False
    have sel: "select_rows (b # flags) df = select_rows flags ?tails"
      unfolding select_rows_def map_map
    proof (rule map_cong[OF refl])
      fix p assume "p \<in> set df"
      from split[OF this] have "select (b # flags) (snd p)
          = select (b # flags) (hd (snd p) # tl (snd p))" by simp
      then show "(fst p, select (b # flags) (snd p))
          = ((\<lambda>p. (fst p, select flags (snd p))) \<circ> (\<lambda>p. (fst p, tl (snd p)))) p"
        using False by simp
    qed
    have lhs: "rows_upto (length (filter id (b # flags))) (select_rows (b # flags) df)
        = rows_upto (length (filter id flags)) (select_rows flags ?tails)"
      unfolding sel using False by simp
    have rhs: "select (b # flags) (rows_upto (length (b # flags)) df)
        = select flags (rows_upto (length flags) ?tails)"
      using False by simp
    show ?thesis by (simp only: lhs rhs ih)
  qed
qed

lemma map_of_rows_upto:
  assumes "map_of df col = Some cells" and "\<forall>p \<in> set df. length (snd p) = n"
  shows "map (\<lambda>r. map_of r col) (rows_upto n df) = map Some cells"
  using assms
proof (induction n arbitrary: df cells)
  case 0
  have "(col, cells) \<in> set df" using "0.prems"(1) by (rule map_of_SomeD)
  then have "length cells = 0" using "0.prems"(2) by auto
  then show ?case by simp
next
  case (Suc n)
  have "(col, cells) \<in> set df" using Suc.prems(1) by (rule map_of_SomeD)
  then have "length cells = Suc n" using Suc.prems(2) by auto
  then obtain c cs where cells: "cells = c # cs" by (cases cells) auto
  let ?tails = "map (\<lambda>p. (fst p, tl (snd p))) df"
  have t: "map_of ?tails col = Some cs"
    using Suc.prems(1) cells by (simp add: map_of_map_cells)
  have "\<forall>p \<in> set ?tails. length (snd p) = n" using Suc.prems(2) by auto
  note ih = Suc.IH[OF t this]
  have "map_of (map (\<lambda>p. (fst p, hd (snd p))) df) col = Some c"
    using Suc.prems(1) cells by (simp add: map_of_map_cells)
  then show ?case using ih cells by simp
qed

lemma numbers_Inr: "numbers cells = Inr a \<Longrightarrow> cells = map Num a"
  by (induction cells arbitrary: a rule: numbers.induct) (auto split: sum.splits)

lemma numbers_map_Num: "numbers (map Num a) = Inr a"
  by (induction a) simp_all

lemma numbers_total:
  "list_all (\<lambda>c. cell_number c \<noteq> None) cells \<Longrightarrow> \<exists>a. numbers cells = Inr a"
  by (induction cells rule: numbers.induct) auto

lemma map_filter_Some: "map f xs = map Some a \<Longrightarrow> List.map_filter f xs = a"
proof (induction xs arbitrary: a)
  case Nil
  then show ?case by simp
next
  case (Cons x xs)
  then show ?case by (cases a) auto
qed

lemma length_rows_upto: "length (rows_upto n df) = n"
  by (induction n arbitrary: df) simp_all

lemma abs_lt_3_iff: "abs_lt_3 z = magnitude_below_3 z"
  by (cases z) auto

lemma select_scores:
  "length zs = length rs
     \<Longrightarrow> select (map abs_lt_3 zs) rs
           = map fst (filter (\<lambda>p. magnitude_below_3 (snd p)) (zip rs zs))"
proof (induction rs arbitrary: zs)
  case Nil
  then show ?case by simp
next
  case (Cons r rs)
  then obtain z zs' where "zs = z # zs'" by (cases zs) auto
  then show ?case using Cons by (simp add: abs_lt_3_iff)
qed

subsection \<open>One step of the outlier filter\<close>

lemma removeOutliers_body_rows:
  assumes "wf_frame df" and "numeric_column df col" and "shape_preserving zscore"
  shows "\<exists>out. removeOutliers_body zscore df col = Inr out \<and> keys out = keys df
      \<and> wf_frame out
      \<and> rows out = survivors zscore col (rows df)
      \<and> (\<forall>c. numeric_column df c \<longrightarrow> numeric_column out c)"
proof -
  from assms(2) obtain cells where c: "map_of df col = Some cells"
    and num: "list_all (\<lambda>c. cell_number c \<noteq> None) cells"
    by (auto simp: numeric_column_def split: option.splits)
  from numbers_total[OF num] obtain a where a: "numbers cells = Inr a" by blast
  have cells: "cells = map Num a" by (rule numbers_Inr[OF a])
  define n where "n = nrows df"
  have len: "\<forall>p \<in> set df. length (snd p) = n"
    using assms(1) by (simp add: wf_frame_def n_def list_all_iff)
  have "(col, cells) \<in> set df" using c by (rule map_of_SomeD)
  then have "length cells = n" using len by force
  then have la: "length a = n" by (simp add: cells)
  define flags where "flags = map abs_lt_3 (zscore a)"
  have lz: "length (zscore a) = n" using assms(3) la by (simp add: shape_preserving_def)
  then have lf: "length flags = n" by (simp add: flags_def)
  define out where "out = select_rows flags df"
  have r: "removeOutliers_body zscore df col = Inr out"
    using c a by (simp add: removeOutliers_body_def dict_get_def out_def flags_def)
  have k: "keys out = keys df" by (simp add: out_def keys_select_rows)
  define m where "m = length (filter id flags)"
  have lo: "\<forall>p \<in> set out. length (snd p) = m"
    unfolding out_def select_rows_def m_def using len lf by (auto simp: length_select)
  obtain p df' where df: "df = p # df'" using c by (cases df) auto
  have "length (snd p) = length flags" using len lf df by simp
  then have "length (select flags (snd p)) = m" by (simp add: m_def length_select)
  then have nro: "nrows out = m"
    by (cases p) (simp add: out_def select_rows_def df)
  have wf: "wf_frame out"
    using assms(1) k lo nro by (simp add: wf_frame_def wf_dict_def list_all_iff)
  have rows_df: "rows df = rows_upto n df" by (simp add: rows_def n_def)
  have len': "\<forall>p \<in> set df. length (snd p) = length flags" using len lf by simp
  have "rows out = rows_upto m out" by (simp add: rows_def nro)
  also have "\<dots> = select flags (rows_upto (length flags) df)"
    unfolding m_def out_def by (rule rows_upto_select[OF len'])
  also have "\<dots> = select flags (rows df)" by (simp add: lf rows_df)
  finally have ro: "rows out = select flags (rows df)" .
  have mo: "map (\<lambda>r. map_of r col) (rows df) = map Some cells"
    unfolding rows_df by (rule map_of_rows_upto[OF c len])
  have "map (row_number col) (rows df)
      = map (\<lambda>v. case v of None \<Rightarrow> None | Some c \<Rightarrow> cell_number c)
          (map (\<lambda>r. map_of r col) (rows df))"
    by (simp add: row_number_def comp_def)
  then have rn: "map (row_number col) (rows df) = map Some a"
    by (simp add: mo cells comp_def)
  have cn: "column_numbers col (rows df) = a"
    unfolding column_numbers_def by (rule map_filter_Some[OF rn])
  have "length (zscore a) = length (rows df)"
    by (simp add: lz rows_df length_rows_upto)
  then have rf: "rows out = survivors zscore col (rows df)"
    unfolding ro flags_def survivors_def cn by (rule select_scores)
  have np: "numeric_column out c" if "numeric_column df c" for c
  proof -
    from that obtain cs where cs: "map_of df c = Some cs"
      and all: "list_all (\<lambda>c. cell_number c \<noteq> None) cs"
      by (auto simp: numeric_column_def split: option.splits)
    have "map_of out c = Some (select flags cs)"
      by (simp add: out_def map_of_select_rows cs)
    moreover have "list_all (\<lambda>c. cell_number c \<noteq> None) (select flags cs)"
      using all set_select[of flags cs] by (auto simp: list_all_iff)
    ultimately show ?thesis by (simp add: numeric_column_def)
  qed
  show ?thesis
  proof (intro exI[of _ out] conjI allI impI)
    show "removeOutliers_body zscore df col = Inr out" by (rule r)
    show "keys out = keys df" by (rule k)
    show "wf_frame out" by (rule wf)
    show "rows out = survivors zscore col (rows df)" by (rule rf)
    show "numeric_column out c" if "numeric_column df c" for c by (rule np[OF that])
  qed
qed

lemma removeOutliers_loop_rows:
  assumes "wf_frame df" and "list_all (numeric_column df) cols" and "shape_preserving zscore"
  shows "\<exists>out. for_each (removeOutliers_body zscore) df cols = Inr out \<and> keys out = keys df
      \<and> wf_frame out \<and> rows out = narrowed zscore cols (rows df)"
  using assms(1,2)
proof (induction cols arbitrary: df)
  case Nil
  then show ?case by simp
next
  case (Cons col cols)
  have nc: "numeric_column df col" using Cons.prems(2) by simp
  from removeOutliers_body_rows[OF Cons.prems(1) nc assms(3)] obtain d where
    d: "removeOutliers_body zscore df col = Inr d" and kd: "keys d = keys df"
    and wd: "wf_frame d"
    and rd: "rows d = survivors zscore col (rows df)"
    and nd: "\<forall>c. numeric_column df c \<longrightarrow> numeric_column d c"
    by blast
  have "list_all (numeric_column d) cols"
    using Cons.prems(2) nd by (simp add: list_all_iff)
  from Cons.IH[OF wd this] obtain out where
    o: "for_each (removeOutliers_body zscore) d cols = Inr out" and ko: "keys out = keys d"
    and wo: "wf_frame out" and ro: "rows out = narrowed zscore cols (rows d)"
    by blast
  have "for_each (removeOutliers_body zscore) df (col # cols) = Inr out" using d o by simp
  moreover have "rows out = narrowed zscore (col # cols) (rows df)" using ro rd by simp
  ultimately show ?case using ko kd wo by auto
qed

text \<open>
  Claim C2.  For a table whose six filtered columns exist and hold numbers, and for every
  scoring function that returns one score for each number of a column (as SciPy's
  \<open>zscore\<close> does), \<open>removeOutliers\<close> returns a table with the same columns whose rows are
  obtained by taking the columns \<open>savingsRate\<close>, \<open>distCrime\<close>, \<open>amount\<close>, \<open>duration\<close>,
  \<open>payments\<close>, \<open>expenses\<close> in this order and keeping, at each step, exactly the rows whose
  z-score in the column, computed over the rows that survived the steps before, has a
  magnitude strictly below 3.
\<close>

theorem removeOutliers_sequential:
  assumes "wf_frame df" and "list_all (numeric_column df) nonCategoricalColumns"
    and "shape_preserving zscore"
  shows "\<exists>out. removeOutliers zscore df = Inr out \<and> keys out = keys df
    \<and> rows out =
        narrowed zscore [''savingsRate'', ''distCrime'', ''amount'', ''duration'', ''payments'',
          ''expenses''] (rows df)"
proof -
  from removeOutliers_loop_rows[OF assms] obtain out where
    "for_each (removeOutliers_body zscore) df nonCategoricalColumns = Inr out"
    and "keys out = keys df"
    and "rows out = narrowed zscore nonCategoricalColumns (rows df)"
    by blast
  then show ?thesis unfolding removeOutliers_def nonCategoricalColumns_def by blast
qed

text \<open>
  In the example the scoring function is \<open>nan\<close> on a constant array and otherwise the
  distance of a value from the mean of the array.  The fourth row is removed for \<open>amount\<close>.
  The third row then survives \<open>duration\<close>: its score among the three surviving rows is
  below 3, although its score among the four rows of the input table is not.
\<close>

theorem removeOutliers_sequential_witness:
  "wf_frame [(''savingsRate'', map Num [0, 1, 0, 1]), (''distCrime'', map Num [0, 1, 0, 1]),
      (''amount'', map Num [0, 0, 0, 4]), (''duration'', map Num [0, 0, 4, 0]),
      (''payments'', map Num [0, 1, 0, 1]), (''expenses'', map Num [1, 0, 1, 0])]
   \<and> list_all (numeric_column [(''savingsRate'', map Num [0, 1, 0, 1]), (''distCrime'', map Num [0, 1, 0, 1]),
      (''amount'', map Num [0, 0, 0, 4]), (''duration'', map Num [0, 0, 4, 0]),
      (''payments'', map Num [0, 1, 0, 1]), (''expenses'', map Num [1, 0, 1, 0])]) nonCategoricalColumns
   \<and> shape_preserving (\<lambda>a. map (\<lambda>x. if list_all (\<lambda>y. y = x) a then NaN
                          else Score (x - sum_list a / real (length a))) a)
   \<and> removeOutliers (\<lambda>a. map (\<lambda>x. if list_all (\<lambda>y. y = x) a then NaN
                          else Score (x - sum_list a / real (length a))) a) [(''savingsRate'', map Num [0, 1, 0, 1]), (''distCrime'', map Num [0, 1, 0, 1]),
      (''amount'', map Num [0, 0, 0, 4]), (''duration'', map Num [0, 0, 4, 0]),
      (''payments'', map Num [0, 1, 0, 1]), (''expenses'', map Num [1, 0, 1, 0])]
     = Inr [(''savingsRate'', map Num [0, 1, 0]), (''distCrime'', map Num [0, 1, 0]),
      (''amount'', map Num [0, 0, 0]), (''duration'', map Num [0, 0, 4]),
      (''payments'', map Num [0, 1, 0]), (''expenses'', map Num [1, 0, 1])]
   \<and> narrowed (\<lambda>a. map (\<lambda>x. if list_all (\<lambda>y. y = x) a then NaN
                          else Score (x - sum_list a / real (length a))) a)
       [''savingsRate'', ''distCrime'', ''amount'', ''duration'', ''payments'', ''expenses'']
       (rows [(''savingsRate'', map Num [0, 1, 0, 1]), (''distCrime'', map Num [0, 1, 0, 1]),
      (''amount'', map Num [0, 0, 0, 4]), (''duration'', map Num [0, 0, 4, 0]),
      (''payments'', map Num [0, 1, 0, 1]), (''expenses'', map Num [1, 0, 1, 0])])
     = rows [(''savingsRate'', map Num [0, 1, 0]), (''distCrime'', map Num [0, 1, 0]),
      (''amount'', map Num [0, 0, 0]), (''duration'', map Num [0, 0, 4]),
      (''payments'', map Num [0, 1, 0]), (''expenses'', map Num [1, 0, 1])]
   \<and> \<not> magnitude_below_3 ((\<lambda>a. map (\<lambda>x. if list_all (\<lambda>y. y = x) a then NaN
                          else Score (x - sum_list a / real (length a))) a) [0, 0, 4, 0] ! 2)
   \<and> magnitude_below_3 ((\<lambda>a. map (\<lambda>x. if list_all (\<lambda>y. y = x) a then NaN
                          else Score (x - sum_list a / real (length a))) a) [0, 0, 4] ! 2)"
proof -
  let ?df = "[(''savingsRate'', map Num [0, 1, 0, 1]), (''distCrime'', map Num [0, 1, 0, 1]),
      (''amount'', map Num [0, 0, 0, 4]), (''duration'', map Num [0, 0, 4, 0]),
      (''payments'', map Num [0, 1, 0, 1]), (''expenses'', map Num [1, 0, 1, 0])]"
  let ?res = "[(''savingsRate'', map Num [0, 1, 0]), (''distCrime'', map Num [0, 1, 0]),
      (''amount'', map Num [0, 0, 0]), (''duration'', map Num [0, 0, 4]),
      (''payments'', map Num [0, 1, 0]), (''expenses'', map Num [1, 0, 1])]"
  let ?zs = "(\<lambda>a. map (\<lambda>x. if list_all (\<lambda>y. y = x) a then NaN
                          else Score (x - sum_list a / real (length a))) a)"
  have wf: "wf_frame ?df" by (simp add: wf_frame_def wf_dict_def keys_def)
  have nc: "list_all (numeric_column ?df) nonCategoricalColumns"
    by (simp add: numeric_column_def nonCategoricalColumns_def)
  have sp: "shape_preserving ?zs" by (simp add: shape_preserving_def)
  have ev: "removeOutliers ?zs ?df = Inr ?res"
    by (simp add: removeOutliers_def nonCategoricalColumns_def removeOutliers_body_def
        dict_get_def select_rows_def)
  from removeOutliers_sequential[OF wf nc sp] obtain out where
    oo: "removeOutliers ?zs ?df = Inr out \<and> keys out = keys ?df
      \<and> rows out = narrowed ?zs [''savingsRate'', ''distCrime'', ''amount'', ''duration'',
          ''payments'', ''expenses''] (rows ?df)"
    by (rule exE)
  note o = oo[THEN conjunct1] and r = oo[THEN conjunct2, THEN conjunct2]
  have "Inr out = (Inr ?res :: error + dataframe)" using o ev by (rule trans[OF sym])
  then have "out = ?res" by (simp only: sum.inject)
  then have nr: "narrowed ?zs [''savingsRate'', ''distCrime'', ''amount'', ''duration'',
          ''payments'', ''expenses''] (rows ?df) = rows ?res"
    using r by (simp only:)
  have a: "\<not> magnitude_below_3 (?zs [0, 0, 4, 0] ! 2)" by simp
  have b: "magnitude_below_3 (?zs [0, 0, 4] ! 2)" by simp
  show ?thesis using wf nc sp ev nr a b by (intro conjI)
qed

subsection \<open>Columns whose scores are all nan\<close>

lemma narrowed_Nil: "narrowed zscore cols [] = []"
proof (induction cols)
  case Nil
  then show ?case by simp
next
  case (Cons col cols)
  then show ?case by (simp add: survivors_def)
qed

lemma survivors_nan:
  "list_all (\<lambda>z. z = NaN) (zscore (column_numbers col rs)) \<Longrightarrow> survivors zscore col rs = []"
proof -
  assume nan: "list_all (\<lambda>z. z = NaN) (zscore (column_numbers col rs))"
  have "\<not> magnitude_below_3 (snd p)"
    if "p \<in> set (zip rs (zscore (column_numbers col rs)))" for p
  proof -
    obtain r z where p: "p = (r, z)" by (cases p)
    have "z \<in> set (zscore (column_numbers col rs))"
      using that unfolding p by (rule set_zip_rightD)
    then have "snd p \<in> set (zscore (column_numbers col rs))" by (simp add: p)
    then have "snd p = NaN" using nan by (simp add: list_all_iff)
    then show ?thesis by simp
  qed
  then show ?thesis by (simp add: survivors_def filter_empty_conv)
qed

lemma removeOutliers_all_nan:
  assumes "wf_frame df" and "list_all (numeric_column df) nonCategoricalColumns"
    and "shape_preserving zscore"
    and "list_all (\<lambda>z. z = NaN) (zscore (column_numbers ''savingsRate'' (rows df)))"
  shows "\<exists>out. removeOutliers zscore df = Inr out \<and> rows out = []"
proof -
  from removeOutliers_loop_rows[OF assms(1,2,3)] obtain out where
    o: "for_each (removeOutliers_body zscore) df nonCategoricalColumns = Inr out"
    and r: "rows out = narrowed zscore nonCategoricalColumns (rows df)"
    by blast
  have "narrowed zscore nonCategoricalColumns (rows df) = []"
    using survivors_nan[of zscore "''savingsRate''" "rows df", OF assms(4)]
    by (simp add: nonCategoricalColumns_def narrowed_Nil)
  then show ?thesis using o r by (simp add: removeOutliers_def)
qed

text \<open>
  Claim C3 fails on the code.  In a table of two rows in which every filtered column is
  constant, the standard deviation of \<open>savingsRate\<close> is 0 and SciPy's \<open>zscore\<close> returns
  \<open>nan\<close> for both rows.  For every scoring function that does so, the comparison
  \<open>nan < 3\<close> is false for every row and the filter returns a table without rows: it removes
  all rows although none of them is an outlier.  The lemma \<open>removeOutliers_all_nan\<close> above
  shows the same for every table whose first filtered column is scored \<open>nan\<close> throughout.
\<close>

theorem removeOutliers_constant_columns:
  assumes "zscore [1, 1] = [NaN, NaN]"
  shows "removeOutliers zscore
     [(''savingsRate'', [Num 1, Num 1]), (''distCrime'', [Num 1, Num 1]),
      (''amount'', [Num 1, Num 1]), (''duration'', [Num 1, Num 1]),
      (''payments'', [Num 1, Num 1]), (''expenses'', [Num 1, Num 1])]
   = Inr [(''savingsRate'', []), (''distCrime'', []), (''amount'', []), (''duration'', []),
      (''payments'', []), (''expenses'', [])]"
  using assms
  by (simp add: removeOutliers_def nonCategoricalColumns_def removeOutliers_body_def dict_get_def
     select_rows_def)

theorem removeOutliers_constant_columns_witness:
  "(\<lambda>a. map (\<lambda>x. if list_all (\<lambda>y. y = x) a then NaN
                          else Score (x - sum_list a / real (length a))) a) [1, 1] = [NaN, NaN]
   \<and> removeOutliers (\<lambda>a. map (\<lambda>x. if list_all (\<lambda>y. y = x) a then NaN
                          else Score (x - sum_list a / real (length a))) a)
     [(''savingsRate'', [Num 1, Num 1]), (''distCrime'', [Num 1, Num 1]),
      (''amount'', [Num 1, Num 1]), (''duration'', [Num 1, Num 1]),
      (''payments'', [Num 1, Num 1]), (''expenses'', [Num 1, Num 1])]
   = Inr [(''savingsRate'', []), (''distCrime'', []), (''amount'', []), (''duration'', []),
      (''payments'', []), (''expenses'', [])]"
proof -
  let ?zs = "(\<lambda>a. map (\<lambda>x. if list_all (\<lambda>y. y = x) a then NaN
                          else Score (x - sum_list a / real (length a))) a)"
  have h: "?zs [1, 1] = [NaN, NaN]" by simp
  show ?thesis using h removeOutliers_constant_columns[of ?zs, OF h] by (intro conjI)
qed

section \<open>Properties of the encoder\<close>

subsection \<open>The codes of the label encoder\<close>

lemma classes_props:
  "sorted (classes y)" "distinct (classes y)" "set (classes y) = set y"
  by (simp_all add: classes_def)

lemma position_nth:
  "c \<in> set xs \<Longrightarrow> position xs c < length xs \<and> xs ! position xs c = c"
  by (induction xs) auto

lemma position_of_nth:
  "distinct xs \<Longrightarrow> i < length xs \<Longrightarrow> position xs (xs ! i) = i"
proof (induction xs arbitrary: i)
  case Nil
  then show ?case by simp
next
  case (Cons x xs)
  then show ?case by (cases i) auto
qed

lemma position_less_iff:
  fixes xs :: "'a::linorder list"
  assumes "sorted xs" and "distinct xs" and "c \<in> set xs" and "d \<in> set xs"
  shows "(position xs c < position xs d) = (c < d)"
proof -
  define i where "i = position xs c"
  define j where "j = position xs d"
  have i: "i < length xs" "xs ! i = c" using position_nth[OF assms(3)] by (simp_all add: i_def)
  have j: "j < length xs" "xs ! j = d" using position_nth[OF assms(4)] by (simp_all add: j_def)
  have mono: "xs ! a < xs ! b" if "a < b" "b < length xs" for a b
  proof -
    have "xs ! a \<le> xs ! b" using assms(1) that by (simp add: sorted_nth_mono)
    moreover have "xs ! a \<noteq> xs ! b"
      using assms(2) that by (simp add: nth_eq_iff_index_eq)
    ultimately show ?thesis by simp
  qed
  show ?thesis
  proof
    assume "position xs c < position xs d"
    then have "i < j" by (simp add: i_def j_def)
    from mono[OF this j(1)] show "c < d" by (simp add: i j)
  next
    assume cd: "c < d"
    show "position xs c < position xs d"
    proof (rule ccontr)
      assume "\<not> position xs c < position xs d"
      then have "j \<le> i" by (simp add: i_def j_def)
      then have "j = i \<or> j < i" by auto
      then have "d \<le> c"
      proof
        assume "j = i"
        then show ?thesis using i j by simp
      next
        assume "j < i"
        from mono[OF this i(1)] show ?thesis by (simp add: i j)
      qed
      then show False using cd by simp
    qed
  qed
qed

lemma label_ascending: "ascending_codes y (label y)"
proof -
  let ?cs = "classes y"
  note s = classes_props(1)[of y] and d = classes_props(2)[of y] and e = classes_props(3)[of y]
  have len: "length ?cs = card (set y)" using distinct_card[OF d] e by simp
  have order: "(label y c < label y c') = (c < c')" if "c \<in> set y" "c' \<in> set y" for c c'
    unfolding label_def using that by (intro position_less_iff[OF s d]) (simp_all add: e)
  have "label y ` set y = {0..<card (set y)}"
  proof (intro equalityI subsetI)
    fix k assume "k \<in> label y ` set y"
    then obtain c where "c \<in> set y" "k = label y c" by auto
    then have "k < length ?cs" using position_nth[of c ?cs] by (simp add: label_def e)
    then show "k \<in> {0..<card (set y)}" by (simp add: len)
  next
    fix k assume "k \<in> {0..<card (set y)}"
    then have k: "k < length ?cs" by (simp add: len)
    then have "?cs ! k \<in> set y" using e nth_mem by blast
    moreover have "label y (?cs ! k) = k"
      unfolding label_def by (rule position_of_nth[OF d k])
    ultimately show "k \<in> label y ` set y" by force
  qed
  moreover have "label y c = 0" if c: "c \<in> set y" and low: "\<forall>c' \<in> set y. c \<le> c'" for c
  proof (rule ccontr)
    assume "label y c \<noteq> 0"
    then have pos: "0 < label y c" by simp
    have ne: "?cs \<noteq> []" using c e by auto
    then have "0 < length ?cs" by simp
    then have h: "?cs ! 0 \<in> set y" using e nth_mem by blast
    have "label y (?cs ! 0) = 0"
      unfolding label_def using ne by (intro position_of_nth[OF d]) simp
    then have "label y (?cs ! 0) < label y c" using pos by simp
    then have "?cs ! 0 < c" using order[OF h c] by simp
    then show False using low h by auto
  qed
  ultimately show ?thesis using order by (simp add: ascending_codes_def)
qed


subsection \<open>Tables under assignment of a column\<close>

lemma set_dict_set: "set (dict_set d k v) \<subseteq> insert (k, v) (set d)"
  by (induction d k v rule: dict_set.induct) auto

lemma dict_set_not_Nil: "dict_set d k v \<noteq> []"
  by (induction d k v rule: dict_set.induct) (simp_all split: if_splits)

lemma set_keys_dict_set: "set (keys (dict_set d k v)) = insert k (set (keys d))"
  by (auto simp: keys_dict_set)

lemma nrows_uniform:
  assumes "df \<noteq> []" and "\<forall>p \<in> set df. length (snd p) = n"
  shows "nrows df = n"
proof -
  obtain p df' where df: "df = p # df'" using assms(1) by (cases df) auto
  then show ?thesis using assms(2) by (cases p) simp
qed

lemma key_of_map_of: "map_of d k = Some v \<Longrightarrow> k \<in> set (keys d)"
  by (auto simp: keys_def dest: map_of_SomeD intro: rev_image_eqI)

subsection \<open>The loop over the dates\<close>

lemma for_each_split_date:
  assumes "map (\<lambda>r. map_of r ''date'') rs = map Some dates"
    and "map convertFullDate dates = map Inr ds"
  shows "for_each (split_date convertFullDate) (ys, ms, dd) rs
           = Inr (ys @ map year ds, ms @ map month ds, dd @ map day ds)"
  using assms
proof (induction rs arbitrary: dates ds ys ms dd)
  case Nil
  then show ?case by simp
next
  case (Cons r rs)
  from Cons.prems(1) obtain c dates' where dates: "dates = c # dates'"
    and r: "map_of r ''date'' = Some c"
    and rest: "map (\<lambda>r. map_of r ''date'') rs = map Some dates'"
    by (cases dates) auto
  from Cons.prems(2) dates obtain d ds' where ds: "ds = d # ds'"
    and c: "convertFullDate c = Inr d" and rest': "map convertFullDate dates' = map Inr ds'"
    by (cases ds) auto
  have step: "split_date convertFullDate (ys, ms, dd) r
      = Inr (ys @ [year d], ms @ [month d], dd @ [day d])"
    by (simp add: split_date_def dict_get_def r c)
  show ?case
    using Cons.IH[OF rest rest', of "ys @ [year d]" "ms @ [month d]" "dd @ [day d]"]
    by (simp add: step ds)
qed


text \<open>
  Claim C9.  For a table with the columns \<open>gender\<close>, \<open>ageGroup\<close> and \<open>date\<close>, whose two
  categorical columns each hold values of one kind and whose dates all parse,
  \<open>labelEncoding\<close> returns a table in which \<open>gender\<close> and \<open>ageGroup\<close> hold the codes of
  their values, assigned by ascending sort of the distinct values of the column (the lowest
  value has code 0); the codes are a function of the column, so the same input yields the
  same codes.  The column \<open>date\<close> is replaced by the columns \<open>month\<close> and \<open>day\<close> of
  the parsed dates, no column \<open>year\<close> is added, and every other column is unchanged.
\<close>

theorem labelEncoding_codes_and_dates:
  assumes "wf_frame df"
    and "map_of df ''gender'' = Some gender" and "homogeneous gender"
    and "map_of df ''ageGroup'' = Some ageGroup" and "homogeneous ageGroup"
    and "map_of df ''date'' = Some dates" and "map convertFullDate dates = map Inr ds"
  shows "\<exists>out. labelEncoding convertFullDate df = Inr out
    \<and> map_of out ''gender'' = Some (map (\<lambda>c. Num (real (label gender c))) gender)
    \<and> ascending_codes gender (label gender)
    \<and> map_of out ''ageGroup'' = Some (map (\<lambda>c. Num (real (label ageGroup c))) ageGroup)
    \<and> ascending_codes ageGroup (label ageGroup)
    \<and> map_of out ''month'' = Some (map (\<lambda>d. Num (real_of_int (month d))) ds)
    \<and> map_of out ''day'' = Some (map (\<lambda>d. Num (real_of_int (day d))) ds)
    \<and> set (keys out) = (set (keys df) - {''date''}) \<union> {''month'', ''day''}
    \<and> ''date'' \<notin> set (keys out)
    \<and> (''year'' \<in> set (keys out)) = (''year'' \<in> set (keys df))
    \<and> (\<forall>c. c \<notin> {''gender'', ''ageGroup'', ''date'', ''month'', ''day''}
           \<longrightarrow> map_of out c = map_of df c)"
proof -
  define n where "n = nrows df"
  have len: "\<forall>p \<in> set df. length (snd p) = n"
    using assms(1) by (simp add: wf_frame_def n_def list_all_iff)
  have lg: "length gender = n" using map_of_SomeD[OF assms(2)] len by force
  have la: "length ageGroup = n" using map_of_SomeD[OF assms(4)] len by force
  define eg where "eg = map (\<lambda>c. Num (real (label gender c))) gender"
  define ea where "ea = map (\<lambda>c. Num (real (label ageGroup c))) ageGroup"
  define months where "months = int_cells (map month ds)"
  define days where "days = int_cells (map day ds)"
  have f1: "fit_transform gender = Inr eg" using assms(3) by (simp add: fit_transform_def eg_def)
  have f2: "fit_transform ageGroup = Inr ea" using assms(5) by (simp add: fit_transform_def ea_def)
  define d1 where "d1 = filter (\<lambda>p. fst p \<noteq> ''gender'') df"
  define d2 where "d2 = filter (\<lambda>p. fst p \<noteq> ''ageGroup'') d1"
  define e where "e = dict_set (dict_set d2 ''gender'' eg) ''ageGroup'' ea"
  define d5 where "d5 = filter (\<lambda>p. fst p \<noteq> ''date'') e"
  define out where "out = dict_set (dict_set d5 ''month'' months) ''day'' days"
  have m1: "map_of d1 c = (if c \<noteq> ''gender'' then map_of df c else None)" for c
    unfolding d1_def by (rule map_of_filter_keys[of "\<lambda>c. c \<noteq> ''gender''"])
  have m2: "map_of d2 c = (if c \<noteq> ''ageGroup'' then map_of d1 c else None)" for c
    unfolding d2_def by (rule map_of_filter_keys[of "\<lambda>c. c \<noteq> ''ageGroup''"])
  have me: "map_of e = ((map_of d2)(''gender'' \<mapsto> eg))(''ageGroup'' \<mapsto> ea)"
    by (simp add: e_def map_of_dict_set)
  have m5: "map_of d5 c = (if c \<noteq> ''date'' then map_of e c else None)" for c
    unfolding d5_def by (rule map_of_filter_keys[of "\<lambda>c. c \<noteq> ''date''"])
  have mo: "map_of out = ((map_of d5)(''month'' \<mapsto> months))(''day'' \<mapsto> days)"
    by (simp add: out_def map_of_dict_set)
  have k1: "keys d1 = filter (\<lambda>c. c \<noteq> ''gender'') (keys df)"
    unfolding d1_def by (rule keys_filter)
  have k2: "keys d2 = filter (\<lambda>c. c \<noteq> ''ageGroup'') (keys d1)"
    unfolding d2_def by (rule keys_filter)
  have k5: "keys d5 = filter (\<lambda>c. c \<noteq> ''date'') (keys e)"
    unfolding d5_def by (rule keys_filter)
  have ke: "set (keys e) = insert ''ageGroup'' (insert ''gender'' (set (keys d2)))"
    by (simp add: e_def set_keys_dict_set)
  have ko: "set (keys out) = insert ''day'' (insert ''month'' (set (keys d5)))"
    by (simp add: out_def set_keys_dict_set)
  have g_in: "''gender'' \<in> set (keys df)" by (rule key_of_map_of[OF assms(2)])
  have a_in: "''ageGroup'' \<in> set (keys df)" by (rule key_of_map_of[OF assms(4)])
  have c1: "drop_column df ''gender'' = Inr d1"
    using g_in by (simp add: drop_column_def d1_def)
  have "''ageGroup'' \<in> set (keys d1)" using a_in by (simp add: k1)
  then have c2: "drop_column d1 ''ageGroup'' = Inr d2"
    by (simp add: drop_column_def d2_def)
  have date_e: "map_of e ''date'' = Some dates"
    using assms(6) by (simp add: me m2 m1)
  then have "''date'' \<in> set (keys e)" by (rule key_of_map_of)
  then have c3: "drop_column e ''date'' = Inr d5"
    by (simp add: drop_column_def d5_def)
  have "set d2 \<subseteq> set df" by (auto simp: d2_def d1_def)
  then have len2: "\<forall>p \<in> set d2. length (snd p) = n" using len by auto
  have "set e \<subseteq> insert (''ageGroup'', ea) (insert (''gender'', eg) (set d2))"
    unfolding e_def
    using set_dict_set[of "dict_set d2 ''gender'' eg" "''ageGroup''" ea]
      set_dict_set[of d2 "''gender''" eg] by auto
  then have lene: "\<forall>p \<in> set e. length (snd p) = n"
    using len2 lg la by (auto simp: eg_def ea_def)
  have "e \<noteq> []" unfolding e_def by (rule dict_set_not_Nil)
  then have "nrows e = n" using lene by (rule nrows_uniform)
  then have rows_e: "rows e = rows_upto n e" by (simp add: rows_def)
  have "map (\<lambda>r. map_of r ''date'') (rows e) = map Some dates"
    unfolding rows_e by (rule map_of_rows_upto[OF date_e lene])
  from for_each_split_date[OF this assms(7), of "[]" "[]" "[]"]
  have loop: "for_each (split_date convertFullDate) ([], [], []) (rows e)
      = Inr (map year ds, map month ds, map day ds)"
    by simp
  have r: "labelEncoding convertFullDate df = Inr out"
    unfolding labelEncoding_def
    by (simp add: dict_get_def assms(2) assms(4) f1 f2 c1 c2 Let_def e_def[symmetric] loop c3
        out_def months_def days_def)
  have vg: "map_of out ''gender'' = Some eg" by (simp add: mo m5 me)
  have va: "map_of out ''ageGroup'' = Some ea" by (simp add: mo m5 me)
  have vm: "map_of out ''month'' = Some (map (\<lambda>d. Num (real_of_int (month d))) ds)"
    by (simp add: mo months_def int_cells_def comp_def)
  have vd: "map_of out ''day'' = Some (map (\<lambda>d. Num (real_of_int (day d))) ds)"
    by (simp add: mo days_def int_cells_def comp_def)
  have ks: "set (keys out) = (set (keys df) - {''date''}) \<union> {''month'', ''day''}"
    using g_in a_in by (auto simp: ko k5 ke k2 k1)
  have others: "map_of out c = map_of df c"
    if "c \<notin> {''gender'', ''ageGroup'', ''date'', ''month'', ''day''}" for c
    using that by (simp add: mo m5 me m2 m1)
  show ?thesis
  proof (intro exI[of _ out] conjI allI impI)
    show "labelEncoding convertFullDate df = Inr out" by (rule r)
    show "map_of out ''gender'' = Some (map (\<lambda>c. Num (real (label gender c))) gender)"
      using vg by (simp add: eg_def)
    show "ascending_codes gender (label gender)" by (rule label_ascending)
    show "map_of out ''ageGroup'' = Some (map (\<lambda>c. Num (real (label ageGroup c))) ageGroup)"
      using va by (simp add: ea_def)
    show "ascending_codes ageGroup (label ageGroup)" by (rule label_ascending)
    show "map_of out ''month'' = Some (map (\<lambda>d. Num (real_of_int (month d))) ds)" by (rule vm)
    show "map_of out ''day'' = Some (map (\<lambda>d. Num (real_of_int (day d))) ds)" by (rule vd)
    show "set (keys out) = (set (keys df) - {''date''}) \<union> {''month'', ''day''}" by (rule ks)
    show "''date'' \<notin> set (keys out)" by (simp add: ks)
    show "(''year'' \<in> set (keys out)) = (''year'' \<in> set (keys df))" by (simp add: ks)
    show "map_of out c = map_of df c"
      if "c \<notin> {''gender'', ''ageGroup'', ''date'', ''month'', ''day''}" for c
      by (rule others[OF that])
  qed
qed


theorem labelEncoding_codes_and_dates_witness:
  "wf_frame [(''amount'', [Num 100, Num 200, Num 300]),
      (''gender'', [Str ''M'', Str ''F'', Str ''M'']),
      (''date'', [Str ''1997-05-12'', Str ''1997-05-12'', Str ''1998-11-30'']),
      (''ageGroup'', [Str ''adult'', Str ''senior'', Str ''adult''])]
   \<and> homogeneous [Str ''M'', Str ''F'', Str ''M'']
   \<and> homogeneous [Str ''adult'', Str ''senior'', Str ''adult'']
   \<and> labelEncoding (\<lambda>c. if c = Str ''1997-05-12'' then Inr \<lparr>year = 1997, month = 5, day = 12\<rparr>
          else if c = Str ''1998-11-30'' then Inr \<lparr>year = 1998, month = 11, day = 30\<rparr>
          else Inl ParseError) [(''amount'', [Num 100, Num 200, Num 300]),
      (''gender'', [Str ''M'', Str ''F'', Str ''M'']),
      (''date'', [Str ''1997-05-12'', Str ''1997-05-12'', Str ''1998-11-30'']),
      (''ageGroup'', [Str ''adult'', Str ''senior'', Str ''adult''])]
     = Inr [(''amount'', [Num 100, Num 200, Num 300]),
      (''gender'', [Num 1, Num 0, Num 1]),
      (''ageGroup'', [Num 0, Num 1, Num 0]),
      (''month'', [Num 5, Num 5, Num 11]),
      (''day'', [Num 12, Num 12, Num 30])]
   \<and> map_of [(''amount'', [Num 100, Num 200, Num 300]),
      (''gender'', [Num 1, Num 0, Num 1]),
      (''ageGroup'', [Num 0, Num 1, Num 0]),
      (''month'', [Num 5, Num 5, Num 11]),
      (''day'', [Num 12, Num 12, Num 30])] ''gender''
     = Some (map (\<lambda>c. Num (real (label [Str ''M'', Str ''F'', Str ''M''] c)))
         [Str ''M'', Str ''F'', Str ''M''])
   \<and> ascending_codes [Str ''M'', Str ''F'', Str ''M''] (label [Str ''M'', Str ''F'', Str ''M''])
   \<and> label [Str ''M'', Str ''F'', Str ''M''] (Str ''F'') = 0
   \<and> label [Str ''M'', Str ''F'', Str ''M''] (Str ''M'') = 1
   \<and> ''year'' \<notin> set (keys [(''amount'', [Num 100, Num 200, Num 300]),
      (''gender'', [Num 1, Num 0, Num 1]),
      (''ageGroup'', [Num 0, Num 1, Num 0]),
      (''month'', [Num 5, Num 5, Num 11]),
      (''day'', [Num 12, Num 12, Num 30])])"
proof -
  let ?df = "[(''amount'', [Num 100, Num 200, Num 300]),
      (''gender'', [Str ''M'', Str ''F'', Str ''M'']),
      (''date'', [Str ''1997-05-12'', Str ''1997-05-12'', Str ''1998-11-30'']),
      (''ageGroup'', [Str ''adult'', Str ''senior'', Str ''adult''])]"
  let ?res = "[(''amount'', [Num 100, Num 200, Num 300]),
      (''gender'', [Num 1, Num 0, Num 1]),
      (''ageGroup'', [Num 0, Num 1, Num 0]),
      (''month'', [Num 5, Num 5, Num 11]),
      (''day'', [Num 12, Num 12, Num 30])]"
  let ?cfd = "(\<lambda>c. if c = Str ''1997-05-12'' then Inr \<lparr>year = 1997, month = 5, day = 12\<rparr>
          else if c = Str ''1998-11-30'' then Inr \<lparr>year = 1998, month = 11, day = 30\<rparr>
          else Inl ParseError)"
  let ?g = "[Str ''M'', Str ''F'', Str ''M'']"
  let ?a = "[Str ''adult'', Str ''senior'', Str ''adult'']"
  let ?dates = "[Str ''1997-05-12'', Str ''1997-05-12'', Str ''1998-11-30'']"
  let ?ds = "[\<lparr>year = 1997, month = 5, day = 12\<rparr>, \<lparr>year = 1997, month = 5, day = 12\<rparr>,
       \<lparr>year = 1998, month = 11, day = 30\<rparr>]"
  have wf: "wf_frame ?df" by (simp add: wf_frame_def wf_dict_def keys_def)
  have g: "map_of ?df ''gender'' = Some ?g" by simp
  have hg: "homogeneous ?g" by (simp add: homogeneous_def)
  have a: "map_of ?df ''ageGroup'' = Some ?a" by simp
  have ha: "homogeneous ?a" by (simp add: homogeneous_def)
  have d: "map_of ?df ''date'' = Some ?dates" by simp
  have p: "map ?cfd ?dates = map Inr ?ds" by simp
  have l0: "label ?g (Str ''F'') = 0" by (simp add: label_def classes_def)
  have l1: "label ?g (Str ''M'') = 1" by (simp add: label_def classes_def)
  have ev: "labelEncoding ?cfd ?df = Inr ?res"
    by (simp add: labelEncoding_def dict_get_def fit_transform_def homogeneous_def label_def
        classes_def drop_column_def keys_def rows_def split_date_def int_cells_def
        eval_nat_numeral)
  from labelEncoding_codes_and_dates[OF wf g hg a ha d p] obtain out where
    oo: "labelEncoding ?cfd ?df = Inr out
    \<and> map_of out ''gender'' = Some (map (\<lambda>c. Num (real (label ?g c))) ?g)
    \<and> ascending_codes ?g (label ?g)
    \<and> map_of out ''ageGroup'' = Some (map (\<lambda>c. Num (real (label ?a c))) ?a)
    \<and> ascending_codes ?a (label ?a)
    \<and> map_of out ''month'' = Some (map (\<lambda>d. Num (real_of_int (month d))) ?ds)
    \<and> map_of out ''day'' = Some (map (\<lambda>d. Num (real_of_int (day d))) ?ds)
    \<and> set (keys out) = (set (keys ?df) - {''date''}) \<union> {''month'', ''day''}
    \<and> ''date'' \<notin> set (keys out)
    \<and> (''year'' \<in> set (keys out)) = (''year'' \<in> set (keys ?df))
    \<and> (\<forall>c. c \<notin> {''gender'', ''ageGroup'', ''date'', ''month'', ''day''}
           \<longrightarrow> map_of out c = map_of ?df c)"
    by (rule exE)
  note o = oo[THEN conjunct1]
  have "Inr out = (Inr ?res :: error + dataframe)" using o ev by (rule trans[OF sym])
  then have eq: "out = ?res" by (simp only: sum.inject)
  have og: "map_of ?res ''gender'' = Some (map (\<lambda>c. Num (real (label ?g c))) ?g)"
    using oo[THEN conjunct2, THEN conjunct1] unfolding eq .
  have asc: "ascending_codes ?g (label ?g)"
    using oo[THEN conjunct2, THEN conjunct2, THEN conjunct1] .
  have ny: "''year'' \<notin> set (keys ?res)" by (simp add: keys_def)
  show ?thesis using wf hg ha ev og asc l0 l1 ny by (intro conjI)
qed

end
